theory Spec2Isabelle
  imports Complex_Main "HOL-Library.Word"
begin

section \<open>JavaScript strings\<close>

text \<open>
  A JavaScript string is a sequence of UTF-16 code units. The sources contain string
  literals outside ASCII (the user-facing messages), and \<open>String.prototype.trim\<close> removes
  white space outside ASCII as well, so a string is modelled as the list of its code
  units. \<open>js\<close> embeds an ASCII literal.
\<close>

type_synonym jsstr = "nat list"

definition js :: "string \<Rightarrow> jsstr" where
  "js s = map of_char s"

text \<open>
  The code units \<open>trim\<close> strips: WhiteSpace and LineTerminator of ECMAScript (TAB, LF, VT,
  FF, CR, SP, NBSP, U+1680, U+2000..U+200A, U+2028, U+2029, U+202F, U+205F, U+3000,
  U+FEFF).
\<close>

definition isWhiteSpace :: "nat \<Rightarrow> bool" where
  "isWhiteSpace c =
     (c = 0x9 \<or> c = 0xA \<or> c = 0xB \<or> c = 0xC \<or> c = 0xD \<or> c = 0x20 \<or> c = 0xA0 \<or>
      c = 0x1680 \<or> (0x2000 \<le> c \<and> c \<le> 0x200A) \<or> c = 0x2028 \<or> c = 0x2029 \<or>
      c = 0x202F \<or> c = 0x205F \<or> c = 0x3000 \<or> c = 0xFEFF)"

definition trimStart :: "jsstr \<Rightarrow> jsstr" where
  "trimStart s = dropWhile isWhiteSpace s"

definition trimEnd :: "jsstr \<Rightarrow> jsstr" where
  "trimEnd s = rev (dropWhile isWhiteSpace (rev s))"

definition trim :: "jsstr \<Rightarrow> jsstr" where
  "trim s = trimEnd (trimStart s)"

fun startsWith :: "jsstr \<Rightarrow> jsstr \<Rightarrow> bool" where
  "startsWith s [] = True"
| "startsWith [] (p # ps) = False"
| "startsWith (c # cs) (p # ps) = (c = p \<and> startsWith cs ps)"

definition endsWith :: "jsstr \<Rightarrow> jsstr \<Rightarrow> bool" where
  "endsWith s p = startsWith (rev s) (rev p)"

text \<open>\<open>s.includes(p)\<close>: \<open>p\<close> occurs in \<open>s\<close> as a contiguous run.\<close>

fun includesStr :: "jsstr \<Rightarrow> jsstr \<Rightarrow> bool" where
  "includesStr [] p = (p = [])"
| "includesStr (c # cs) p = (startsWith (c # cs) p \<or> includesStr cs p)"

text \<open>Decimal rendering of a non-negative integer, as a template literal prints it.\<close>

fun showNat :: "nat \<Rightarrow> jsstr" where
  "showNat n = (if n < 10 then [0x30 + n] else showNat (n div 10) @ [0x30 + n mod 10])"

declare showNat.simps [simp del]

section \<open>The background-removal queue (remove-background page)\<close>

subsection \<open>Data\<close>

datatype QueueStatus = Pending | Processing | Success | Error

text \<open>
  A \<open>File\<close> and a \<open>Blob\<close> are opaque to the page: it only passes them on. A file keeps
  the two attributes the pages read (\<open>name\<close>, \<open>type\<close>) and its bytes.
\<close>

record File =
  fileName :: jsstr
  fileType :: jsstr
  fileBytes :: "nat list"

type_synonym Blob = "nat list"

text \<open>
  The credit fields are declared \<open>string | null\<close> and optional: absent (\<open>undefined\<close>),
  \<open>null\<close>, or a string.
\<close>

datatype credit = CreditUndefined | CreditNull | CreditStr jsstr

text \<open>
  \<open>QueueItem\<close>. An optional field is \<open>None\<close> when it is \<open>undefined\<close>. The fields \<open>id\<close> and
  \<open>file\<close> are named \<open>item_id\<close> and \<open>item_file\<close> here.
\<close>

record QueueItem =
  item_id :: jsstr
  item_file :: File
  previewUrl :: jsstr
  resultUrl :: "jsstr option"
  resultBlob :: "Blob option"
  status :: QueueStatus
  error :: "jsstr option"
  creditsRemaining :: credit
  creditsCharged :: credit
  creditType :: credit

text \<open>
  \<open>Partial<QueueItem>\<close>, the argument of \<open>updateQueueItem\<close>: every key may be absent
  (\<open>Keep\<close>) or present with a value (\<open>Put\<close>). A key present with the value \<open>undefined\<close>, as in
  \<open>{ status: "processing", error: undefined }\<close>, is \<open>Put None\<close>: the object spread
  \<open>{ ...item, ...updater }\<close> copies it and so clears the field.
\<close>

datatype 'a upd = Keep | Put 'a

record QueuePatch =
  p_id :: "jsstr upd"
  p_file :: "File upd"
  p_previewUrl :: "jsstr upd"
  p_resultUrl :: "jsstr option upd"
  p_resultBlob :: "Blob option upd"
  p_status :: "QueueStatus upd"
  p_error :: "jsstr option upd"
  p_creditsRemaining :: "credit upd"
  p_creditsCharged :: "credit upd"
  p_creditType :: "credit upd"

record CreditInfo =
  remaining :: credit
  charged :: credit
  ctype :: credit

text \<open>
  The state of \<open>RemoveBackgroundPage\<close>: its \<open>useState\<close> cells and the \<open>queueRef\<close> mirror of
  the queue.
\<close>

record page =
  apiKey :: jsstr
  queue :: "QueueItem list"
  queueRef :: "QueueItem list"
  activeId :: "jsstr option"
  isProcessing :: bool
  globalError :: "jsstr option"
  lastCreditInfo :: "CreditInfo option"

text \<open>
  What a handler does to the world outside the page state: the \<open>fetch\<close> of
  \<open>/api/remove-background\<close> (with the two form fields it appends) and the release of an
  object URL.
\<close>

datatype effect = Fetch File jsstr | RevokeObjectURL jsstr

text \<open>A thrown value: an \<open>Error\<close> instance with its message, or anything else.\<close>

datatype thrown = ThrownError jsstr | ThrownOther

text \<open>
  The JSON error body of the proxy route, read at the types the page declares for what it
  takes from it (\<open>error?: string\<close> of the item, \<open>errorCode: string | undefined\<close>); \<open>None\<close>
  for the whole body is \<open>null\<close>.
\<close>

record ErrorBody =
  eb_error :: "jsstr option"
  eb_code :: "jsstr option"

text \<open>
  A \<open>Response\<close> as the loop reads it: \<open>ok\<close>, the header lookup, and the outcome of each of
  the three body readers (\<open>json()\<close>, \<open>text()\<close>, \<open>blob()\<close>), any of which may reject.
\<close>

record Response =
  ok :: bool
  headersGet :: "jsstr \<Rightarrow> jsstr option"
  jsonBody :: "thrown + ErrorBody option"
  textBody :: "thrown + jsstr"
  blobBody :: "thrown + Blob"

text \<open>
  Everything the environment decides in one iteration of the loop: whether \<open>fetch\<close>
  rejects or which response it resolves to, and the URL that \<open>URL.createObjectURL\<close> returns
  for the result blob.
\<close>

record call_env =
  fetched :: "thrown + Response"
  createdUrl :: jsstr

subsection \<open>Message literals\<close>

text \<open>"Please fill in the remove.bg API key first."\<close>
definition MSG_MISSING_KEY :: jsstr where
  "MSG_MISSING_KEY = [0x8BF7, 0x5148, 0x586B, 0x5199, 0x20, 0x72, 0x65, 0x6D, 0x6F, 0x76, 0x65,
     0x2E, 0x62, 0x67, 0x20, 0x7684, 0x20, 0x41, 0x50, 0x49, 0x20, 0x4B, 0x65, 0x79, 0x3002]"

text \<open>"Please upload at least one image first."\<close>
definition MSG_EMPTY_QUEUE :: jsstr where
  "MSG_EMPTY_QUEUE = [0x8BF7, 0x5148, 0x4E0A, 0x4F20, 0x81F3, 0x5C11, 0x4E00, 0x5F20, 0x56FE,
     0x7247, 0x3002]"

text \<open>"There is no image waiting to be processed in the queue."\<close>
definition MSG_NO_ELIGIBLE :: jsstr where
  "MSG_NO_ELIGIBLE = [0x961F, 0x5217, 0x4E2D, 0x6682, 0x65E0, 0x5F85, 0x5904, 0x7406, 0x7684,
     0x56FE, 0x7247, 0x3002]"

text \<open>"Background removal failed, please try again later."\<close>
definition MSG_REMOVE_FAILED :: jsstr where
  "MSG_REMOVE_FAILED = [0x53BB, 0x9664, 0x80CC, 0x666F, 0x5931, 0x8D25, 0xFF0C, 0x8BF7, 0x7A0D,
     0x540E, 0x518D, 0x8BD5, 0x3002]"

text \<open>"An unknown error occurred while removing the background, please retry."\<close>
definition MSG_UNKNOWN :: jsstr where
  "MSG_UNKNOWN = [0x53BB, 0x9664, 0x80CC, 0x666F, 0x65F6, 0x51FA, 0x73B0, 0x672A, 0x77E5, 0x9519,
     0x8BEF, 0xFF0C, 0x8BF7, 0x91CD, 0x8BD5, 0x3002]"

text \<open>The ideographic full stop U+3002, and the label "error code:".\<close>
definition FULL_STOP :: jsstr where
  "FULL_STOP = [0x3002]"

definition ERROR_CODE_LABEL :: jsstr where
  "ERROR_CODE_LABEL = [0x9519, 0x8BEF, 0x7801, 0xFF1A]"

subsection \<open>Operations\<close>

text \<open>
  \<open>createQueueItem\<close>. The environment supplies \<open>Date.now()\<close>, the hexadecimal digits
  \<open>Math.random().toString(16).slice(2)\<close> and the object URL of the preview.
\<close>

record create_env =
  now :: nat
  randomHex :: jsstr
  newPreviewUrl :: jsstr

definition createQueueItem :: "File \<times> create_env \<Rightarrow> QueueItem" where
  "createQueueItem fe =
     \<lparr> item_id = showNat (now (snd fe)) @ js ''-'' @ randomHex (snd fe),
       item_file = fst fe,
       previewUrl = newPreviewUrl (snd fe),
       resultUrl = None,
       resultBlob = None,
       status = Pending,
       error = None,
       creditsRemaining = CreditUndefined,
       creditsCharged = CreditUndefined,
       creditType = CreditUndefined \<rparr>"

text \<open>
  After every state change the component renders again and the effect
  \<open>queueRef.current = queue\<close> runs.
\<close>

definition render :: "page \<Rightarrow> page" where
  "render s = s\<lparr>queueRef := queue s\<rparr>"

text \<open>\<open>handleFileChange\<close>, on the files of the input element.\<close>

definition handleFileChange :: "(File \<times> create_env) list \<Rightarrow> page \<Rightarrow> page" where
  "handleFileChange files s =
     (if files = [] then s
      else
        let newItems = map createQueueItem files;
            s1 = s\<lparr>globalError := None\<rparr>;
            s2 = s1\<lparr>queue := queue s1 @ newItems\<rparr>
        in if (activeId s = None \<or> activeId s = Some []) \<and> newItems \<noteq> []
           then s2\<lparr>activeId := Some (item_id (hd newItems))\<rparr>
           else s2)"

text \<open>\<open>queue.find((item) => item.id === id)\<close>.\<close>

definition findItem :: "jsstr \<Rightarrow> QueueItem list \<Rightarrow> QueueItem option" where
  "findItem i q = List.find (\<lambda>item. item_id item = i) q"

text \<open>\<open>handleRemoveItem\<close>. A string is truthy when it is not empty.\<close>

definition handleRemoveItem :: "jsstr \<Rightarrow> page \<Rightarrow> page \<times> effect list" where
  "handleRemoveItem i s =
     (let revoked =
            (case findItem i (queue s) of
               None \<Rightarrow> []
             | Some target \<Rightarrow>
                 RevokeObjectURL (previewUrl target) #
                 (case resultUrl target of
                    None \<Rightarrow> []
                  | Some u \<Rightarrow> if u \<noteq> [] then [RevokeObjectURL u] else []));
          s1 = s\<lparr>queue := filter (\<lambda>item. item_id item \<noteq> i) (queue s)\<rparr>;
          s2 = s1\<lparr>activeId :=
                 (if activeId s1 = Some i then
                    (case filter (\<lambda>item. item_id item \<noteq> i) (queue s) of
                       [] \<Rightarrow> None
                     | first # _ \<Rightarrow> Some (item_id first))
                  else activeId s1)\<rparr>
      in (s2, revoked))"

text \<open>\<open>handleClearQueue\<close>.\<close>

definition handleClearQueue :: "page \<Rightarrow> page \<times> effect list" where
  "handleClearQueue s =
     (s\<lparr>queue := [], activeId := None\<rparr>,
      concat (map (\<lambda>item.
         RevokeObjectURL (previewUrl item) #
         (case resultUrl item of
            None \<Rightarrow> []
          | Some u \<Rightarrow> if u \<noteq> [] then [RevokeObjectURL u] else [])) (queue s)))"

text \<open>\<open>{ ...item, ...updater }\<close>.\<close>

definition putField :: "'a upd \<Rightarrow> 'a \<Rightarrow> 'a" where
  "putField u old = (case u of Keep \<Rightarrow> old | Put v \<Rightarrow> v)"

definition mergePatch :: "QueueItem \<Rightarrow> QueuePatch \<Rightarrow> QueueItem" where
  "mergePatch item u =
     \<lparr> item_id = putField (p_id u) (item_id item),
       item_file = putField (p_file u) (item_file item),
       previewUrl = putField (p_previewUrl u) (previewUrl item),
       resultUrl = putField (p_resultUrl u) (resultUrl item),
       resultBlob = putField (p_resultBlob u) (resultBlob item),
       status = putField (p_status u) (status item),
       error = putField (p_error u) (error item),
       creditsRemaining = putField (p_creditsRemaining u) (creditsRemaining item),
       creditsCharged = putField (p_creditsCharged u) (creditsCharged item),
       creditType = putField (p_creditType u) (creditType item) \<rparr>"

text \<open>
  The release inside \<open>updateQueueItem\<close>: when the patch carries a truthy \<open>resultUrl\<close> and the
  item holds a different truthy one, the old URL is revoked.
\<close>

definition revokeOnUpdate :: "QueueItem \<Rightarrow> QueuePatch \<Rightarrow> effect list" where
  "revokeOnUpdate item u =
     (case p_resultUrl u of
        Put (Some new) \<Rightarrow>
          (case resultUrl item of
             Some old \<Rightarrow> if new \<noteq> [] \<and> old \<noteq> [] \<and> old \<noteq> new then [RevokeObjectURL old] else []
           | None \<Rightarrow> [])
      | _ \<Rightarrow> [])"

text \<open>
  \<open>updateQueueItem\<close>: the map over the queue of \<open>setQueue((prev) => prev.map(...))\<close>, and
  the releases it performs on the way.
\<close>

definition updateItems :: "jsstr \<Rightarrow> QueuePatch \<Rightarrow> QueueItem list \<Rightarrow> QueueItem list" where
  "updateItems i u q = map (\<lambda>item. if item_id item \<noteq> i then item else mergePatch item u) q"

definition updateEffects :: "jsstr \<Rightarrow> QueuePatch \<Rightarrow> QueueItem list \<Rightarrow> effect list" where
  "updateEffects i u q =
     concat (map (\<lambda>item. if item_id item \<noteq> i then [] else revokeOnUpdate item u) q)"

definition updateQueueItem :: "jsstr \<Rightarrow> QueuePatch \<Rightarrow> page \<times> effect list \<Rightarrow> page \<times> effect list" where
  "updateQueueItem i u st =
     ((fst st)\<lparr>queue := updateItems i u (queue (fst st))\<rparr>,
      snd st @ updateEffects i u (queue (fst st)))"

text \<open>The work set of a batch run: \<open>item.status === "pending" || item.status === "error"\<close>.\<close>

definition eligible :: "QueueItem \<Rightarrow> bool" where
  "eligible item = (status item = Pending \<or> status item = Error)"

definition emptyPatch :: QueuePatch where
  "emptyPatch =
     \<lparr> p_id = Keep, p_file = Keep, p_previewUrl = Keep, p_resultUrl = Keep, p_resultBlob = Keep,
       p_status = Keep, p_error = Keep, p_creditsRemaining = Keep, p_creditsCharged = Keep,
       p_creditType = Keep \<rparr>"

text \<open>\<open>{ status: "processing", error: undefined }\<close>.\<close>

definition processingPatch :: QueuePatch where
  "processingPatch = emptyPatch\<lparr>p_status := Put Processing, p_error := Put None\<rparr>"

text \<open>The patch of the \<open>catch\<close> block: \<open>{ status: "error", error: message }\<close>.\<close>

definition catchMessage :: "thrown \<Rightarrow> jsstr" where
  "catchMessage ex = (case ex of ThrownError m \<Rightarrow> m | ThrownOther \<Rightarrow> MSG_UNKNOWN)"

definition catchPatch :: "thrown \<Rightarrow> QueuePatch" where
  "catchPatch ex = emptyPatch\<lparr>p_status := Put Error, p_error := Put (Some (catchMessage ex))\<rparr>"

text \<open>The patch of a response that is not ok.\<close>

definition failurePatch :: "jsstr \<Rightarrow> credit \<Rightarrow> credit \<Rightarrow> credit \<Rightarrow> QueuePatch" where
  "failurePatch combinedMessage cr cc ct =
     emptyPatch\<lparr>p_status := Put Error, p_error := Put (Some combinedMessage),
       p_creditsRemaining := Put cr, p_creditsCharged := Put cc, p_creditType := Put ct\<rparr>"

text \<open>The patch of a response that is ok.\<close>

definition successPatch :: "Blob \<Rightarrow> jsstr \<Rightarrow> credit \<Rightarrow> credit \<Rightarrow> credit \<Rightarrow> QueuePatch" where
  "successPatch blob url cr cc ct =
     emptyPatch\<lparr>p_status := Put Success, p_resultBlob := Put (Some blob),
       p_resultUrl := Put (Some url), p_error := Put None,
       p_creditsRemaining := Put cr, p_creditsCharged := Put cc, p_creditType := Put ct\<rparr>"

text \<open>\<open>response.headers.get(a) ?? null\<close> and \<open>get(a) ?? get(b) ?? null\<close>.\<close>

definition headerOrNull :: "Response \<Rightarrow> jsstr \<Rightarrow> credit" where
  "headerOrNull response name =
     (case headersGet response name of Some v \<Rightarrow> CreditStr v | None \<Rightarrow> CreditNull)"

definition readCreditsRemaining :: "Response \<Rightarrow> credit" where
  "readCreditsRemaining response =
     (case headersGet response (js ''x-credits-remaining'') of
        Some v \<Rightarrow> CreditStr v
      | None \<Rightarrow> headerOrNull response (js ''x-credit-balance''))"

text \<open>
  The diagnostic of a response that is not ok: \<open>message\<close> and \<open>errorCode\<close>, or what the body
  reader threw. \<open>a || b\<close> on strings takes \<open>b\<close> when \<open>a\<close> is absent or empty.
\<close>

definition readFailure :: "Response \<Rightarrow> thrown + (jsstr \<times> jsstr option)" where
  "readFailure response =
     (if (case headersGet response (js ''content-type'') of
            None \<Rightarrow> False
          | Some contentType \<Rightarrow> includesStr contentType (js ''application/json''))
      then
        (case jsonBody response of
           Inl ex \<Rightarrow> Inl ex
         | Inr None \<Rightarrow> Inr (MSG_REMOVE_FAILED, None)
         | Inr (Some body) \<Rightarrow>
             Inr ((case eb_error body of
                     None \<Rightarrow> MSG_REMOVE_FAILED
                   | Some m \<Rightarrow> if m \<noteq> [] then m else MSG_REMOVE_FAILED),
                  eb_code body))
      else
        (case textBody response of
           Inl ex \<Rightarrow> Inl ex
         | Inr text \<Rightarrow> Inr (if text \<noteq> [] then text else MSG_REMOVE_FAILED, None)))"

definition combineMessage :: "jsstr \<Rightarrow> jsstr option \<Rightarrow> jsstr" where
  "combineMessage message errorCode =
     (case errorCode of
        None \<Rightarrow> message
      | Some c \<Rightarrow>
          if c \<noteq> []
          then message @ (if endsWith message FULL_STOP then [] else FULL_STOP) @ ERROR_CODE_LABEL @ c
          else message)"

definition setCredit :: "credit \<Rightarrow> credit \<Rightarrow> credit \<Rightarrow> page \<times> effect list \<Rightarrow> page \<times> effect list" where
  "setCredit cr cc ct st =
     ((fst st)\<lparr>lastCreditInfo := Some \<lparr>remaining = cr, charged = cc, ctype = ct\<rparr>\<rparr>, snd st)"

text \<open>
  One iteration of the loop of \<open>handleProcessQueue\<close>, for the item \<open>item\<close> of the work set,
  in the three phases of the source. First the item is set to processing.
\<close>

definition startItem :: "QueueItem \<Rightarrow> page \<times> effect list \<Rightarrow> page \<times> effect list" where
  "startItem item st = updateQueueItem (item_id item) processingPatch st"

text \<open>Then the form is built and the request is sent.\<close>

definition sendRequest :: "jsstr \<Rightarrow> QueueItem \<Rightarrow> page \<times> effect list \<Rightarrow> page \<times> effect list" where
  "sendRequest key item st = (fst st, snd st @ [Fetch (item_file item) (trim key)])"

text \<open>
  Then, once the request has resolved or rejected, the outcome is applied: the failure
  branch of a response that is not ok, the success branch, or the \<open>catch\<close> block for
  whatever was thrown on the way.
\<close>

definition settleItem :: "call_env \<Rightarrow> QueueItem \<Rightarrow> page \<times> effect list \<Rightarrow> page \<times> effect list" where
  "settleItem e item st =
     (case fetched e of
        Inl ex \<Rightarrow> updateQueueItem (item_id item) (catchPatch ex) st
      | Inr response \<Rightarrow>
          let cr = readCreditsRemaining response;
              cc = headerOrNull response (js ''x-credits-charged'');
              ct = headerOrNull response (js ''x-credit-type'')
          in if \<not> ok response then
               (case readFailure response of
                  Inl ex \<Rightarrow> updateQueueItem (item_id item) (catchPatch ex) st
                | Inr (message, errorCode) \<Rightarrow>
                    setCredit cr cc ct
                      (updateQueueItem (item_id item)
                         (failurePatch (combineMessage message errorCode) cr cc ct) st))
             else
               (case blobBody response of
                  Inl ex \<Rightarrow> updateQueueItem (item_id item) (catchPatch ex) st
                | Inr blob \<Rightarrow>
                    setCredit cr cc ct
                      (updateQueueItem (item_id item)
                         (successPatch blob (createdUrl e) cr cc ct) st)))"

definition processItem :: "call_env \<Rightarrow> jsstr \<Rightarrow> QueueItem \<Rightarrow> page \<times> effect list \<Rightarrow> page \<times> effect list" where
  "processItem e key item st = settleItem e item (sendRequest key item (startItem item st))"

text \<open>
  The \<open>for (const item of itemsToProcess)\<close> loop. The environment of the \<open>k\<close>-th
  iteration is \<open>env k\<close>.
\<close>

fun processItems :: "(nat \<Rightarrow> call_env) \<Rightarrow> jsstr \<Rightarrow> nat \<Rightarrow> QueueItem list \<Rightarrow> page \<times> effect list \<Rightarrow> page \<times> effect list" where
  "processItems env key k [] st = st"
| "processItems env key k (item # rest) st =
     processItems env key (Suc k) rest (processItem (env k) key item st)"

text \<open>\<open>handleProcessQueue\<close>.\<close>

definition handleProcessQueue :: "(nat \<Rightarrow> call_env) \<Rightarrow> page \<Rightarrow> page \<times> effect list" where
  "handleProcessQueue env s =
     (if trim (apiKey s) = [] then (s\<lparr>globalError := Some MSG_MISSING_KEY\<rparr>, [])
      else if queue s = [] then (s\<lparr>globalError := Some MSG_EMPTY_QUEUE\<rparr>, [])
      else
        let itemsToProcess = filter eligible (queueRef s)
        in if itemsToProcess = [] then (s\<lparr>globalError := Some MSG_NO_ELIGIBLE\<rparr>, [])
           else
             let st = processItems env (apiKey s) 0 itemsToProcess
                        (s\<lparr>globalError := None, isProcessing := True\<rparr>, [])
             in ((fst st)\<lparr>isProcessing := False\<rparr>, snd st))"

subsection \<open>Example states\<close>

definition initialPage :: "jsstr \<Rightarrow> page" where
  "initialPage k =
     \<lparr> apiKey = k, queue = [], queueRef = [], activeId = None, isProcessing = False,
       globalError = None, lastCreditInfo = None \<rparr>"

definition exFile :: "nat \<Rightarrow> File" where
  "exFile n = \<lparr>fileName = js ''a.png'', fileType = js ''image/png'', fileBytes = [n]\<rparr>"

definition exUpload :: "nat \<Rightarrow> File \<times> create_env" where
  "exUpload n = (exFile n, \<lparr>now = n, randomHex = js ''f'', newPreviewUrl = js ''blob:p''\<rparr>)"

definition exItem :: "nat \<Rightarrow> QueueItem" where
  "exItem n = createQueueItem (exUpload n)"

definition exPage :: "QueueItem list \<Rightarrow> page" where
  "exPage q = (initialPage (js ''key''))\<lparr>queue := q, queueRef := q\<rparr>"

definition exResponse :: "bool \<Rightarrow> Response" where
  "exResponse b =
     \<lparr> ok = b, headersGet = (\<lambda>name. None), jsonBody = Inr None, textBody = Inr [],
       blobBody = Inr [7] \<rparr>"

definition exEnv :: "bool \<Rightarrow> call_env" where
  "exEnv b = \<lparr>fetched = Inr (exResponse b), createdUrl = js ''blob:r''\<rparr>"

lemmas ex_defs = exItem_def exUpload_def exFile_def exPage_def initialPage_def createQueueItem_def js_def

lemma exItem_ids:
  "item_id (exItem 11) = js ''11-f''" "item_id (exItem 12) = js ''12-f''"
  "item_id (exItem 13) = js ''13-f''"
  by (simp_all add: ex_defs showNat.simps)

lemma exKey_not_blank: "trim (js ''key'') \<noteq> []"
  by (simp add: trim_def trimEnd_def trimStart_def js_def isWhiteSpace_def)

subsection \<open>An update for an id that is not in the queue\<close>

lemma trim_Nil: "trim [] = []"
  by (simp add: trim_def trimEnd_def trimStart_def)

lemma updateItems_absent: "i \<notin> item_id ` set q \<Longrightarrow> updateItems i u q = q"
  by (induction q) (auto simp: updateItems_def)

lemma updateEffects_absent: "i \<notin> item_id ` set q \<Longrightarrow> updateEffects i u q = []"
  by (induction q) (auto simp: updateEffects_def)

text \<open>
  C10. For every state and every id that no item of the queue carries, \<open>updateQueueItem\<close>
  leaves the state as it is and releases nothing; in particular an update for the id that
  \<open>handleRemoveItem\<close> has just removed changes nothing, whatever the patch.
\<close>

theorem updateQueueItem_absent_noop:
  "(i \<notin> item_id ` set (queue (fst st)) \<longrightarrow> updateQueueItem i u st = st) \<and>
   updateQueueItem i u (handleRemoveItem i s) = handleRemoveItem i s"
proof -
  have a: "updateQueueItem i u st' = st'" if "i \<notin> item_id ` set (queue (fst st'))" for st'
    using that
    by (cases st') (simp add: updateQueueItem_def updateItems_absent updateEffects_absent)
  have "i \<notin> item_id ` set (queue (fst (handleRemoveItem i s)))"
    by (auto simp: handleRemoveItem_def Let_def)
  with a show ?thesis by blast
qed

theorem updateQueueItem_absent_noop_witness:
  "js ''12-f'' \<notin> item_id ` set (queue (fst (exPage [exItem 11], []))) \<and>
   updateQueueItem (js ''12-f'') (catchPatch ThrownOther) (exPage [exItem 11], []) =
     (exPage [exItem 11], [])"
proof -
  have h: "js ''12-f'' \<notin> item_id ` set (queue (fst (exPage [exItem 11], [])))"
    by (simp add: ex_defs showNat.simps)
  note c = updateQueueItem_absent_noop [THEN conjunct1, rule_format, OF h]
  show ?thesis
    by (intro conjI) (rule h c)+
qed

subsection \<open>The preconditions of a batch run\<close>

lemma filter_eligible_none:
  "\<forall>item \<in> set q. status item \<noteq> Pending \<and> status item \<noteq> Error \<Longrightarrow> filter eligible q = []"
  by (induction q) (auto simp: eligible_def)

text \<open>
  C1. In a state as the handler finds it (\<open>render s\<close>: the mirror \<open>queueRef\<close> holds the
  queue), \<open>handleProcessQueue\<close> checks three preconditions in this order: the credential,
  trimmed, is not empty (an empty credential trims to the empty string); the queue is not
  empty; some item is pending or failed. At the first one violated it sets the message of
  that violation as the global error, and nothing else: no request is sent, no URL is
  released, and the queue and every item in it are as before. The three messages differ.
\<close>

theorem handleProcessQueue_fails_fast:
  "(trim (apiKey s) = [] \<longrightarrow>
      handleProcessQueue env (render s) = ((render s)\<lparr>globalError := Some MSG_MISSING_KEY\<rparr>, [])) \<and>
   (trim (apiKey s) \<noteq> [] \<and> queue s = [] \<longrightarrow>
      handleProcessQueue env (render s) = ((render s)\<lparr>globalError := Some MSG_EMPTY_QUEUE\<rparr>, [])) \<and>
   (trim (apiKey s) \<noteq> [] \<and> queue s \<noteq> [] \<and>
    (\<forall>item \<in> set (queue s). status item \<noteq> Pending \<and> status item \<noteq> Error) \<longrightarrow>
      handleProcessQueue env (render s) = ((render s)\<lparr>globalError := Some MSG_NO_ELIGIBLE\<rparr>, [])) \<and>
   trim [] = [] \<and>
   distinct [MSG_MISSING_KEY, MSG_EMPTY_QUEUE, MSG_NO_ELIGIBLE]"
proof -
  have 1: "trim (apiKey s) = [] \<longrightarrow>
      handleProcessQueue env (render s) = ((render s)\<lparr>globalError := Some MSG_MISSING_KEY\<rparr>, [])"
    by (simp add: handleProcessQueue_def render_def)
  have 2: "trim (apiKey s) \<noteq> [] \<and> queue s = [] \<longrightarrow>
      handleProcessQueue env (render s) = ((render s)\<lparr>globalError := Some MSG_EMPTY_QUEUE\<rparr>, [])"
    by (simp add: handleProcessQueue_def render_def)
  have 3: "trim (apiKey s) \<noteq> [] \<and> queue s \<noteq> [] \<and>
    (\<forall>item \<in> set (queue s). status item \<noteq> Pending \<and> status item \<noteq> Error) \<longrightarrow>
      handleProcessQueue env (render s) = ((render s)\<lparr>globalError := Some MSG_NO_ELIGIBLE\<rparr>, [])"
    by (simp add: handleProcessQueue_def render_def filter_eligible_none)
  have 4: "distinct [MSG_MISSING_KEY, MSG_EMPTY_QUEUE, MSG_NO_ELIGIBLE]"
    by (simp add: MSG_MISSING_KEY_def MSG_EMPTY_QUEUE_def MSG_NO_ELIGIBLE_def)
  show ?thesis
    by (intro conjI) (rule 1 2 3 4 trim_Nil)+
qed

theorem handleProcessQueue_fails_fast_witness:
  "trim (apiKey (initialPage [])) = [] \<and>
   handleProcessQueue (\<lambda>k. exEnv True) (render (initialPage [])) =
     ((render (initialPage []))\<lparr>globalError := Some MSG_MISSING_KEY\<rparr>, []) \<and>
   trim (apiKey (exPage [])) \<noteq> [] \<and> queue (exPage []) = [] \<and>
   handleProcessQueue (\<lambda>k. exEnv True) (render (exPage [])) =
     ((render (exPage []))\<lparr>globalError := Some MSG_EMPTY_QUEUE\<rparr>, []) \<and>
   trim (apiKey (exPage [(exItem 11)\<lparr>status := Success\<rparr>])) \<noteq> [] \<and>
   queue (exPage [(exItem 11)\<lparr>status := Success\<rparr>]) \<noteq> [] \<and>
   handleProcessQueue (\<lambda>k. exEnv True) (render (exPage [(exItem 11)\<lparr>status := Success\<rparr>])) =
     ((render (exPage [(exItem 11)\<lparr>status := Success\<rparr>]))\<lparr>globalError := Some MSG_NO_ELIGIBLE\<rparr>, [])"
proof -
  note t = handleProcessQueue_fails_fast
  have h1: "trim (apiKey (initialPage [])) = []"
    by (simp add: initialPage_def trim_Nil)
  have h2a: "trim (apiKey (exPage [])) \<noteq> []" and h2b: "queue (exPage []) = []"
    using exKey_not_blank by (simp_all add: exPage_def initialPage_def)
  have h3a: "trim (apiKey (exPage [(exItem 11)\<lparr>status := Success\<rparr>])) \<noteq> []"
    and h3b: "queue (exPage [(exItem 11)\<lparr>status := Success\<rparr>]) \<noteq> []"
    and h3c: "\<forall>item \<in> set (queue (exPage [(exItem 11)\<lparr>status := Success\<rparr>])).
               status item \<noteq> Pending \<and> status item \<noteq> Error"
    using exKey_not_blank by (simp_all add: exPage_def initialPage_def)
  note c1 = t [THEN conjunct1, rule_format, OF h1]
  note c2 = t [THEN conjunct2, THEN conjunct1, rule_format, OF conjI [OF h2a h2b]]
  note c3 = t [THEN conjunct2, THEN conjunct2, THEN conjunct1, rule_format,
               OF conjI [OF h3a conjI [OF h3b h3c]]]
  show ?thesis
    by (intro conjI) (rule h1 c1 h2a h2b c2 h3a h3b c3)+
qed

subsection \<open>Removing an item\<close>

lemma filter_ne_split:
  assumes "distinct (map item_id (xs @ x # ys))"
  shows "filter (\<lambda>item. item_id item \<noteq> item_id x) (xs @ x # ys) = xs @ ys"
proof -
  have nx: "item_id x \<notin> item_id ` set xs" "item_id x \<notin> item_id ` set ys"
    using assms by auto
  have "\<And>y. y \<in> set xs \<Longrightarrow> item_id y \<noteq> item_id x"
    using nx(1) by (metis imageI)
  then have 1: "filter (\<lambda>item. item_id item \<noteq> item_id x) xs = xs"
    by (simp add: filter_True)
  have "\<And>y. y \<in> set ys \<Longrightarrow> item_id y \<noteq> item_id x"
    using nx(2) by (metis imageI)
  then have 2: "filter (\<lambda>item. item_id item \<noteq> item_id x) ys = ys"
    by (simp add: filter_True)
  show ?thesis by (simp add: 1 2)
qed

text \<open>
  C5. When the ids of the queue are pairwise different and some item carries the id \<open>i\<close>,
  \<open>handleRemoveItem i\<close> removes exactly that one item: the queue was \<open>xs @ x # ys\<close> with
  \<open>x\<close> the item of id \<open>i\<close>, and it becomes \<open>xs @ ys\<close>, every other item in its place and
  order. If the active id was \<open>i\<close> it becomes the id of the first remaining item, or
  \<open>null\<close> when none remains; otherwise the active id is unchanged.
\<close>

theorem handleRemoveItem_removes_one:
  assumes "distinct (map item_id (queue s))" and "i \<in> item_id ` set (queue s)"
  shows "\<exists>xs x ys. queue s = xs @ x # ys \<and> item_id x = i \<and>
           queue (fst (handleRemoveItem i s)) = xs @ ys \<and>
           activeId (fst (handleRemoveItem i s)) =
             (if activeId s = Some i
              then (case xs @ ys of [] \<Rightarrow> None | first # rest \<Rightarrow> Some (item_id first))
              else activeId s)"
proof -
  from assms(2) obtain x where "x \<in> set (queue s)" and ix: "item_id x = i" by auto
  then obtain xs ys where q: "queue s = xs @ x # ys" by (auto dest: split_list)
  with assms(1) ix have f: "filter (\<lambda>item. item_id item \<noteq> i) (queue s) = xs @ ys"
    using filter_ne_split [of xs x ys] by simp
  have a: "queue (fst (handleRemoveItem i s)) = xs @ ys"
    by (simp add: handleRemoveItem_def Let_def f)
  have b: "activeId (fst (handleRemoveItem i s)) =
             (if activeId s = Some i
              then (case xs @ ys of [] \<Rightarrow> None | first # rest \<Rightarrow> Some (item_id first))
              else activeId s)"
    by (simp add: handleRemoveItem_def Let_def f)
  show ?thesis
    by (rule exI [of _ xs], rule exI [of _ x], rule exI [of _ ys]) (intro conjI q ix a b)
qed

definition exQueue3 :: "QueueItem list" where
  "exQueue3 = [exItem 11, exItem 12, exItem 13]"

lemma exQueue3_ids: "map item_id exQueue3 = [js ''11-f'', js ''12-f'', js ''13-f'']"
  by (simp add: exQueue3_def exItem_ids)

theorem handleRemoveItem_removes_one_witness:
  "distinct (map item_id (queue ((exPage exQueue3)\<lparr>activeId := Some (js ''12-f'')\<rparr>))) \<and>
   js ''12-f'' \<in> item_id ` set (queue ((exPage exQueue3)\<lparr>activeId := Some (js ''12-f'')\<rparr>)) \<and>
   (\<exists>xs x ys. queue ((exPage exQueue3)\<lparr>activeId := Some (js ''12-f'')\<rparr>) = xs @ x # ys \<and>
      item_id x = js ''12-f'' \<and>
      queue (fst (handleRemoveItem (js ''12-f'') ((exPage exQueue3)\<lparr>activeId := Some (js ''12-f'')\<rparr>))) = xs @ ys \<and>
      activeId (fst (handleRemoveItem (js ''12-f'') ((exPage exQueue3)\<lparr>activeId := Some (js ''12-f'')\<rparr>))) =
        (if activeId ((exPage exQueue3)\<lparr>activeId := Some (js ''12-f'')\<rparr>) = Some (js ''12-f'')
         then (case xs @ ys of [] \<Rightarrow> None | first # rest \<Rightarrow> Some (item_id first))
         else activeId ((exPage exQueue3)\<lparr>activeId := Some (js ''12-f'')\<rparr>))) \<and>
   fst (handleRemoveItem (js ''12-f'') ((exPage exQueue3)\<lparr>activeId := Some (js ''12-f'')\<rparr>)) =
     (exPage exQueue3)\<lparr>queue := [exItem 11, exItem 13], activeId := Some (js ''11-f'')\<rparr>"
proof -
  have q: "queue ((exPage exQueue3)\<lparr>activeId := Some (js ''12-f'')\<rparr>) = exQueue3"
    by (simp add: exPage_def)
  have h1: "distinct (map item_id (queue ((exPage exQueue3)\<lparr>activeId := Some (js ''12-f'')\<rparr>)))"
    unfolding q exQueue3_ids by (simp add: js_def)
  have h2: "js ''12-f'' \<in> item_id ` set (queue ((exPage exQueue3)\<lparr>activeId := Some (js ''12-f'')\<rparr>))"
    unfolding q by (simp add: exQueue3_def exItem_ids)
  note c = handleRemoveItem_removes_one [OF h1 h2]
  have f: "filter (\<lambda>item. item_id item \<noteq> js ''12-f'') exQueue3 = [exItem 11, exItem 13]"
    by (simp add: exQueue3_def exItem_ids) (simp add: js_def)
  have e: "fst (handleRemoveItem (js ''12-f'') ((exPage exQueue3)\<lparr>activeId := Some (js ''12-f'')\<rparr>)) =
     (exPage exQueue3)\<lparr>queue := [exItem 11, exItem 13], activeId := Some (js ''11-f'')\<rparr>"
    by (simp add: handleRemoveItem_def Let_def exPage_def f exItem_ids)
  show ?thesis
    by (intro conjI) (rule h1 h2 c e)+
qed

subsection \<open>The batch run\<close>

text \<open>
  The patch with which an iteration ends: the argument of the \<open>updateQueueItem\<close> that
  \<open>settleItem\<close> performs, branch by branch.
\<close>

definition outcomePatch :: "call_env \<Rightarrow> QueuePatch" where
  "outcomePatch e =
     (case fetched e of
        Inl ex \<Rightarrow> catchPatch ex
      | Inr response \<Rightarrow>
          let cr = readCreditsRemaining response;
              cc = headerOrNull response (js ''x-credits-charged'');
              ct = headerOrNull response (js ''x-credit-type'')
          in if \<not> ok response then
               (case readFailure response of
                  Inl ex \<Rightarrow> catchPatch ex
                | Inr (message, errorCode) \<Rightarrow>
                    failurePatch (combineMessage message errorCode) cr cc ct)
             else
               (case blobBody response of
                  Inl ex \<Rightarrow> catchPatch ex
                | Inr blob \<Rightarrow> successPatch blob (createdUrl e) cr cc ct))"

text \<open>
  The external call of an iteration succeeds when \<open>fetch\<close> resolves to a response that is
  ok and whose body can be read as a blob.
\<close>

definition callSucceeds :: "call_env \<Rightarrow> bool" where
  "callSucceeds e =
     (case fetched e of
        Inl ex \<Rightarrow> False
      | Inr response \<Rightarrow> ok response \<and> (case blobBody response of Inl ex \<Rightarrow> False | Inr blob \<Rightarrow> True))"

text \<open>The item after its own iteration: both patches merged into it.\<close>

definition settled :: "call_env \<Rightarrow> QueueItem \<Rightarrow> QueueItem" where
  "settled e item = mergePatch (mergePatch item processingPatch) (outcomePatch e)"

text \<open>
  The queue in which every item of the work set is replaced by its settled version, the
  \<open>k\<close>-th of them under the environment of the \<open>k\<close>-th call, and every other item is left
  alone.
\<close>

fun settleAll :: "(nat \<Rightarrow> call_env) \<Rightarrow> nat \<Rightarrow> QueueItem list \<Rightarrow> QueueItem list" where
  "settleAll env k [] = []"
| "settleAll env k (x # xs) =
     (if eligible x then settled (env k) x # settleAll env (Suc k) xs
      else x # settleAll env k xs)"

text \<open>The position in the work set of the item at position \<open>i\<close> of the queue.\<close>

definition workIndex :: "QueueItem list \<Rightarrow> nat \<Rightarrow> nat" where
  "workIndex q i = length (filter eligible (take i q))"

definition isFetch :: "effect \<Rightarrow> bool" where
  "isFetch ef = (case ef of Fetch f k \<Rightarrow> True | RevokeObjectURL u \<Rightarrow> False)"

lemmas patch_defs = emptyPatch_def processingPatch_def catchPatch_def failurePatch_def
  successPatch_def

lemma updateItems_split:
  assumes "i = item_id x" "i \<notin> item_id ` set pre" "i \<notin> item_id ` set xs"
  shows "updateItems i u (pre @ x # xs) = pre @ mergePatch x u # xs"
proof -
  have "updateItems i u (pre @ x # xs) = updateItems i u pre @ updateItems i u (x # xs)"
    by (simp add: updateItems_def)
  also have "updateItems i u (x # xs) = mergePatch x u # updateItems i u xs"
    using assms(1) by (simp add: updateItems_def)
  finally show ?thesis
    using assms(2,3) by (simp add: updateItems_absent)
qed

lemma outcomePatch_id: "p_id (outcomePatch e) = Keep"
  by (simp add: outcomePatch_def patch_defs Let_def split: sum.splits prod.splits)

lemma outcomePatch_status:
  "p_status (outcomePatch e) = Put (if callSucceeds e then Success else Error)"
  by (simp add: outcomePatch_def callSucceeds_def patch_defs Let_def split: sum.splits prod.splits)

lemma settled_id: "item_id (settled e x) = item_id x"
  by (simp add: settled_def mergePatch_def putField_def outcomePatch_id processingPatch_def
      emptyPatch_def)

lemma settled_status: "status (settled e x) = (if callSucceeds e then Success else Error)"
  by (simp add: settled_def mergePatch_def putField_def outcomePatch_status)

lemma settled_success:
  "callSucceeds e \<Longrightarrow>
     resultBlob (settled e x) \<noteq> None \<and> resultUrl (settled e x) \<noteq> None \<and> error (settled e x) = None"
  by (auto simp: settled_def mergePatch_def putField_def outcomePatch_def callSucceeds_def
      patch_defs Let_def split: sum.splits prod.splits)

lemma settled_failure:
  "\<not> callSucceeds e \<Longrightarrow>
     resultBlob (settled e x) = resultBlob x \<and> resultUrl (settled e x) = resultUrl x \<and>
     error (settled e x) \<noteq> None"
  by (auto simp: settled_def mergePatch_def putField_def outcomePatch_def callSucceeds_def
      patch_defs Let_def split: sum.splits prod.splits)

lemma settleItem_queue:
  "queue (fst (settleItem e item st)) = updateItems (item_id item) (outcomePatch e) (queue (fst st))"
  by (simp add: settleItem_def outcomePatch_def updateQueueItem_def setCredit_def Let_def
      split: sum.splits prod.splits)

lemma processItem_queue:
  "queue (fst (processItem e key item st)) =
     updateItems (item_id item) (outcomePatch e)
       (updateItems (item_id item) processingPatch (queue (fst st)))"
  by (simp add: processItem_def settleItem_queue sendRequest_def startItem_def updateQueueItem_def)

lemma processItem_split:
  assumes "distinct (map item_id (pre @ x # xs))" and "queue (fst st) = pre @ x # xs"
  shows "queue (fst (processItem e key x st)) = pre @ settled e x # xs"
proof -
  have nx: "item_id x \<notin> item_id ` set pre" "item_id x \<notin> item_id ` set xs"
    using assms(1) by auto
  have 1: "updateItems (item_id x) processingPatch (queue (fst st)) =
             pre @ mergePatch x processingPatch # xs"
    unfolding assms(2) by (rule updateItems_split [OF refl nx])
  have i: "item_id (mergePatch x processingPatch) = item_id x"
    by (simp add: mergePatch_def putField_def processingPatch_def emptyPatch_def)
  have 2: "updateItems (item_id x) (outcomePatch e) (pre @ mergePatch x processingPatch # xs) =
             pre @ settled e x # xs"
    unfolding settled_def by (rule updateItems_split) (simp_all add: i nx)
  show ?thesis by (simp add: processItem_queue 1 2)
qed

lemma processItems_queue:
  "queue (fst st) = pre @ q @ behind \<Longrightarrow> distinct (map item_id (pre @ q @ behind)) \<Longrightarrow>
     queue (fst (processItems env key k (filter eligible q) st)) = pre @ settleAll env k q @ behind"
proof (induction q arbitrary: pre k st)
  case Nil
  then show ?case by simp
next
  case (Cons x xs)
  show ?case
  proof (cases "eligible x")
    case True
    have a: "queue (fst (processItem (env k) key x st)) = (pre @ [settled (env k) x]) @ xs @ behind"
      using processItem_split [of pre x "xs @ behind" st "env k" key] Cons.prems by simp
    have d2: "distinct (map item_id ((pre @ [settled (env k) x]) @ xs @ behind))"
      using Cons.prems(2) by (simp add: settled_id)
    from Cons.IH [OF a d2] True show ?thesis by simp
  next
    case False
    have a: "queue (fst st) = (pre @ [x]) @ xs @ behind" using Cons.prems(1) by simp
    have d2: "distinct (map item_id ((pre @ [x]) @ xs @ behind))" using Cons.prems(2) by simp
    from Cons.IH [OF a d2] False show ?thesis by simp
  qed
qed

lemma updateEffects_no_fetch: "filter isFetch (updateEffects i u q) = []"
  by (induction q)
     (auto simp: updateEffects_def revokeOnUpdate_def isFetch_def
           split: upd.splits option.splits)

lemma updateQueueItem_fetches:
  "filter isFetch (snd (updateQueueItem i u st)) = filter isFetch (snd st)"
  by (simp add: updateQueueItem_def updateEffects_no_fetch)

lemma startItem_fetches: "filter isFetch (snd (startItem item st)) = filter isFetch (snd st)"
  by (simp add: startItem_def updateQueueItem_fetches)

lemma sendRequest_fetches:
  "filter isFetch (snd (sendRequest key item st)) =
     filter isFetch (snd st) @ [Fetch (item_file item) (trim key)]"
  by (simp add: sendRequest_def isFetch_def)

lemma settleItem_fetches: "filter isFetch (snd (settleItem e item st)) = filter isFetch (snd st)"
  by (simp add: settleItem_def updateQueueItem_fetches setCredit_def Let_def
      split: sum.splits prod.splits)

lemma processItem_fetches:
  "filter isFetch (snd (processItem e key item st)) =
     filter isFetch (snd st) @ [Fetch (item_file item) (trim key)]"
  by (simp add: processItem_def settleItem_fetches sendRequest_fetches startItem_fetches)

lemma processItems_fetches:
  "filter isFetch (snd (processItems env key k work st)) =
     filter isFetch (snd st) @ map (\<lambda>item. Fetch (item_file item) (trim key)) work"
  by (induction work arbitrary: k st) (simp_all add: processItem_fetches)

text \<open>The loop writes the queue and the last credit information, and nothing else.\<close>

definition sameControls :: "page \<Rightarrow> page \<Rightarrow> bool" where
  "sameControls a b =
     (apiKey a = apiKey b \<and> queueRef a = queueRef b \<and> activeId a = activeId b \<and>
      isProcessing a = isProcessing b \<and> globalError a = globalError b)"

lemma updateQueueItem_controls: "sameControls (fst (updateQueueItem i u st)) (fst st)"
  by (simp add: updateQueueItem_def sameControls_def)

lemma settleItem_controls: "sameControls (fst (settleItem e item st)) (fst st)"
  by (simp add: settleItem_def updateQueueItem_def sameControls_def setCredit_def Let_def
      split: sum.splits prod.splits)

lemma processItem_controls: "sameControls (fst (processItem e key item st)) (fst st)"
  using settleItem_controls [of e item "sendRequest key item (startItem item st)"]
  by (simp add: processItem_def sendRequest_def startItem_def updateQueueItem_def sameControls_def)

lemma processItems_controls: "sameControls (fst (processItems env key k work st)) (fst st)"
proof (induction work arbitrary: k st)
  case Nil
  show ?case by (simp add: sameControls_def)
next
  case (Cons x xs)
  from Cons.IH [of "Suc k" "processItem (env k) key x st"] processItem_controls [of "env k" key x st]
  show ?case by (simp add: sameControls_def)
qed

lemma settleAll_length: "length (settleAll env k q) = length q"
  by (induction q arbitrary: k) simp_all

lemma settleAll_nth:
  "i < length q \<Longrightarrow>
     settleAll env k q ! i =
       (if eligible (q ! i) then settled (env (k + workIndex q i)) (q ! i) else q ! i)"
proof (induction q arbitrary: k i)
  case Nil
  then show ?case by simp
next
  case (Cons x xs)
  show ?case
  proof (cases i)
    case 0
    then show ?thesis by (simp add: workIndex_def)
  next
    case (Suc j)
    with Cons.prems have j: "j < length xs" by simp
    show ?thesis
      using Cons.IH [OF j, of "Suc k"] Cons.IH [OF j, of k] Suc
      by (simp add: workIndex_def)
  qed
qed

text \<open>The page on which the loop starts, and the whole run once the guards have passed.\<close>

lemma handleProcessQueue_runs:
  assumes "trim (apiKey s) \<noteq> []" and "filter eligible (queue s) \<noteq> []"
  shows "handleProcessQueue env (render s) =
           ((fst (processItems env (apiKey s) 0 (filter eligible (queue s))
                    ((render s)\<lparr>globalError := None, isProcessing := True\<rparr>, [])))
              \<lparr>isProcessing := False\<rparr>,
            snd (processItems env (apiKey s) 0 (filter eligible (queue s))
                    ((render s)\<lparr>globalError := None, isProcessing := True\<rparr>, [])))"
proof -
  from assms(2) have "queue s \<noteq> []" by auto
  with assms show ?thesis
    by (simp add: handleProcessQueue_def render_def Let_def)
qed

lemma handleProcessQueue_queue:
  assumes "distinct (map item_id (queue s))" and "trim (apiKey s) \<noteq> []"
    and "filter eligible (queue s) \<noteq> []"
  shows "queue (fst (handleProcessQueue env (render s))) = settleAll env 0 (queue s)"
proof -
  have "queue (fst (processItems env (apiKey s) 0 (filter eligible (queue s))
                    ((render s)\<lparr>globalError := None, isProcessing := True\<rparr>, []))) =
        [] @ settleAll env 0 (queue s) @ []"
    by (rule processItems_queue) (use assms(1) in \<open>simp_all add: render_def\<close>)
  then show ?thesis
    by (simp add: handleProcessQueue_runs [OF assms(2,3)])
qed

lemma handleProcessQueue_fetches:
  assumes "trim (apiKey s) \<noteq> []" and "filter eligible (queue s) \<noteq> []"
  shows "filter isFetch (snd (handleProcessQueue env (render s))) =
           map (\<lambda>item. Fetch (item_file item) (trim (apiKey s))) (filter eligible (queue s))"
  by (simp add: handleProcessQueue_runs [OF assms] processItems_fetches)

lemma handleProcessQueue_controls:
  assumes "trim (apiKey s) \<noteq> []" and "filter eligible (queue s) \<noteq> []"
  shows "globalError (fst (handleProcessQueue env (render s))) = None \<and>
         isProcessing (fst (handleProcessQueue env (render s))) = False \<and>
         apiKey (fst (handleProcessQueue env (render s))) = apiKey s \<and>
         activeId (fst (handleProcessQueue env (render s))) = activeId s"
  unfolding handleProcessQueue_runs [OF assms]
  using processItems_controls [of env "apiKey s" 0 "filter eligible (queue s)"
          "((render s)\<lparr>globalError := None, isProcessing := True\<rparr>, [])"]
  by (simp add: sameControls_def render_def)

definition loopStart :: "page \<Rightarrow> page \<times> effect list" where
  "loopStart s = ((render s)\<lparr>globalError := None, isProcessing := True\<rparr>, [])"

lemma processItems_append:
  "processItems env key k (xs @ ys) st =
     processItems env key (k + length xs) ys (processItems env key k xs st)"
  by (induction xs arbitrary: k st) simp_all

lemma mergePatch_processing:
  "mergePatch x processingPatch = x\<lparr>status := Processing, error := None\<rparr>"
  by (cases x) (simp add: mergePatch_def putField_def processingPatch_def emptyPatch_def)

lemma startItem_split:
  assumes "queue (fst st) = pre @ x # post" and "distinct (map item_id (pre @ x # post))"
  shows "queue (fst (startItem x st)) = pre @ x\<lparr>status := Processing, error := None\<rparr> # post"
proof -
  have nx: "item_id x \<notin> item_id ` set pre" "item_id x \<notin> item_id ` set post"
    using assms(2) by auto
  show ?thesis
    by (simp add: startItem_def updateQueueItem_def assms(1)
        updateItems_split [OF refl nx] mergePatch_processing)
qed

lemma loop_prefix:
  assumes "distinct (map item_id (queue s))" and "queue s = front @ behind"
  shows "queue (fst (processItems env (apiKey s) 0 (filter eligible front) (loopStart s))) =
           settleAll env 0 front @ behind"
proof -
  have "queue (fst (processItems env (apiKey s) 0 (filter eligible front) (loopStart s))) =
          [] @ settleAll env 0 front @ behind"
    by (rule processItems_queue) (use assms in \<open>simp_all add: loopStart_def render_def\<close>)
  then show ?thesis by simp
qed

text \<open>
  C2. Let the ids of the queue be pairwise different, the credential not blank and some item
  pending or failed. Then a batch run sends exactly one request for each item that is
  pending or failed at invocation, in queue order, and none for any other item; an item that
  is \<open>Success\<close> (or \<open>Processing\<close>) at invocation is found unchanged at its place afterwards.
  The run is the loop over that work set; whenever the loop has handled the work items of
  an initial segment \<open>front\<close> of the queue, exactly these have been requested and settled,
  and every item behind is as it was at invocation. One iteration first sets its item to
  processing (clearing its error) without sending anything, then sends one request without
  touching the state, then applies the outcome, which leaves the item \<open>Success\<close> or
  \<open>Error\<close>.
\<close>

theorem handleProcessQueue_sequential:
  assumes "distinct (map item_id (queue s))" and "trim (apiKey s) \<noteq> []"
    and "filter eligible (queue s) \<noteq> []"
  shows
    "filter isFetch (snd (handleProcessQueue env (render s))) =
       map (\<lambda>item. Fetch (item_file item) (trim (apiKey s))) (filter eligible (queue s)) \<and>
     queue (fst (handleProcessQueue env (render s))) = settleAll env 0 (queue s) \<and>
     handleProcessQueue env (render s) =
       ((fst (processItems env (apiKey s) 0 (filter eligible (queue s)) (loopStart s)))
          \<lparr>isProcessing := False\<rparr>,
        snd (processItems env (apiKey s) 0 (filter eligible (queue s)) (loopStart s))) \<and>
     (\<forall>i < length (queue s).
        status (queue s ! i) = Success \<or> status (queue s ! i) = Processing \<longrightarrow>
          queue (fst (handleProcessQueue env (render s))) ! i = queue s ! i) \<and>
     (\<forall>front behind. queue s = front @ behind \<longrightarrow>
        processItems env (apiKey s) 0 (filter eligible (queue s)) (loopStart s) =
          processItems env (apiKey s) (length (filter eligible front)) (filter eligible behind)
            (processItems env (apiKey s) 0 (filter eligible front) (loopStart s)) \<and>
        queue (fst (processItems env (apiKey s) 0 (filter eligible front) (loopStart s))) =
          settleAll env 0 front @ behind \<and>
        filter isFetch (snd (processItems env (apiKey s) 0 (filter eligible front) (loopStart s))) =
          map (\<lambda>item. Fetch (item_file item) (trim (apiKey s))) (filter eligible front)) \<and>
     (\<forall>e key x pre post st.
        queue (fst st) = pre @ x # post \<and> distinct (map item_id (pre @ x # post)) \<longrightarrow>
          processItem e key x st = settleItem e x (sendRequest key x (startItem x st)) \<and>
          queue (fst (startItem x st)) = pre @ x\<lparr>status := Processing, error := None\<rparr> # post \<and>
          filter isFetch (snd (startItem x st)) = filter isFetch (snd st) \<and>
          sendRequest key x (startItem x st) =
            (fst (startItem x st), snd (startItem x st) @ [Fetch (item_file x) (trim key)]) \<and>
          queue (fst (processItem e key x st)) = pre @ settled e x # post \<and>
          filter isFetch (snd (processItem e key x st)) =
            filter isFetch (snd st) @ [Fetch (item_file x) (trim key)] \<and>
          (status (settled e x) = Success \<or> status (settled e x) = Error))"
proof -
  note gd = assms(2,3)
  have 1: "filter isFetch (snd (handleProcessQueue env (render s))) =
       map (\<lambda>item. Fetch (item_file item) (trim (apiKey s))) (filter eligible (queue s))"
    by (rule handleProcessQueue_fetches [OF gd])
  have 2: "queue (fst (handleProcessQueue env (render s))) = settleAll env 0 (queue s)"
    by (rule handleProcessQueue_queue [OF assms])
  have 3: "handleProcessQueue env (render s) =
       ((fst (processItems env (apiKey s) 0 (filter eligible (queue s)) (loopStart s)))
          \<lparr>isProcessing := False\<rparr>,
        snd (processItems env (apiKey s) 0 (filter eligible (queue s)) (loopStart s)))"
    unfolding loopStart_def by (rule handleProcessQueue_runs [OF gd])
  have 4: "\<forall>i < length (queue s).
        status (queue s ! i) = Success \<or> status (queue s ! i) = Processing \<longrightarrow>
          queue (fst (handleProcessQueue env (render s))) ! i = queue s ! i"
    unfolding 2 by (auto simp: settleAll_nth eligible_def)
  have 5: "\<forall>front behind. queue s = front @ behind \<longrightarrow>
        processItems env (apiKey s) 0 (filter eligible (queue s)) (loopStart s) =
          processItems env (apiKey s) (length (filter eligible front)) (filter eligible behind)
            (processItems env (apiKey s) 0 (filter eligible front) (loopStart s)) \<and>
        queue (fst (processItems env (apiKey s) 0 (filter eligible front) (loopStart s))) =
          settleAll env 0 front @ behind \<and>
        filter isFetch (snd (processItems env (apiKey s) 0 (filter eligible front) (loopStart s))) =
          map (\<lambda>item. Fetch (item_file item) (trim (apiKey s))) (filter eligible front)"
  proof (intro allI impI conjI)
    fix front behind
    assume q: "queue s = front @ behind"
    show "processItems env (apiKey s) 0 (filter eligible (queue s)) (loopStart s) =
          processItems env (apiKey s) (length (filter eligible front)) (filter eligible behind)
            (processItems env (apiKey s) 0 (filter eligible front) (loopStart s))"
      by (simp add: q processItems_append)
    show "queue (fst (processItems env (apiKey s) 0 (filter eligible front) (loopStart s))) =
          settleAll env 0 front @ behind"
      by (rule loop_prefix [OF assms(1) q])
    show "filter isFetch (snd (processItems env (apiKey s) 0 (filter eligible front) (loopStart s))) =
          map (\<lambda>item. Fetch (item_file item) (trim (apiKey s))) (filter eligible front)"
      by (simp add: processItems_fetches loopStart_def)
  qed
  have 6: "\<forall>e key x pre post st.
        queue (fst st) = pre @ x # post \<and> distinct (map item_id (pre @ x # post)) \<longrightarrow>
          processItem e key x st = settleItem e x (sendRequest key x (startItem x st)) \<and>
          queue (fst (startItem x st)) = pre @ x\<lparr>status := Processing, error := None\<rparr> # post \<and>
          filter isFetch (snd (startItem x st)) = filter isFetch (snd st) \<and>
          sendRequest key x (startItem x st) =
            (fst (startItem x st), snd (startItem x st) @ [Fetch (item_file x) (trim key)]) \<and>
          queue (fst (processItem e key x st)) = pre @ settled e x # post \<and>
          filter isFetch (snd (processItem e key x st)) =
            filter isFetch (snd st) @ [Fetch (item_file x) (trim key)] \<and>
          (status (settled e x) = Success \<or> status (settled e x) = Error)"
  proof (intro allI impI)
    fix e key x pre post and st :: "page \<times> effect list"
    assume "queue (fst st) = pre @ x # post \<and> distinct (map item_id (pre @ x # post))"
    then have q: "queue (fst st) = pre @ x # post"
      and d: "distinct (map item_id (pre @ x # post))"
      by simp_all
    have a: "processItem e key x st = settleItem e x (sendRequest key x (startItem x st))"
      by (simp add: processItem_def)
    have b: "queue (fst (startItem x st)) = pre @ x\<lparr>status := Processing, error := None\<rparr> # post"
      by (rule startItem_split [OF q d])
    have c: "filter isFetch (snd (startItem x st)) = filter isFetch (snd st)"
      by (rule startItem_fetches)
    have f: "sendRequest key x (startItem x st) =
            (fst (startItem x st), snd (startItem x st) @ [Fetch (item_file x) (trim key)])"
      by (simp add: sendRequest_def)
    have g: "queue (fst (processItem e key x st)) = pre @ settled e x # post"
      by (rule processItem_split [OF d q])
    have h: "filter isFetch (snd (processItem e key x st)) =
            filter isFetch (snd st) @ [Fetch (item_file x) (trim key)]"
      by (rule processItem_fetches)
    have i: "status (settled e x) = Success \<or> status (settled e x) = Error"
      by (simp add: settled_status)
    show "processItem e key x st = settleItem e x (sendRequest key x (startItem x st)) \<and>
          queue (fst (startItem x st)) = pre @ x\<lparr>status := Processing, error := None\<rparr> # post \<and>
          filter isFetch (snd (startItem x st)) = filter isFetch (snd st) \<and>
          sendRequest key x (startItem x st) =
            (fst (startItem x st), snd (startItem x st) @ [Fetch (item_file x) (trim key)]) \<and>
          queue (fst (processItem e key x st)) = pre @ settled e x # post \<and>
          filter isFetch (snd (processItem e key x st)) =
            filter isFetch (snd st) @ [Fetch (item_file x) (trim key)] \<and>
          (status (settled e x) = Success \<or> status (settled e x) = Error)"
      by (intro conjI) (rule a b c f g h i)+
  qed
  show ?thesis
    by (intro conjI) (rule 1 2 3 4 5 6)+
qed

definition exDone :: QueueItem where
  "exDone = (exItem 11)\<lparr>status := Success, resultBlob := Some [7], resultUrl := Some (js ''blob:r'')\<rparr>"

definition exFailed :: QueueItem where
  "exFailed = (exItem 13)\<lparr>status := Error, error := Some MSG_UNKNOWN\<rparr>"

definition exEnvs :: "nat \<Rightarrow> call_env" where
  "exEnvs k = exEnv (k \<noteq> 1)"

lemma ex_distinct: "distinct [js ''11-f'', js ''12-f'', js ''13-f'']"
  by (simp add: js_def)

lemma ex_trim_key: "trim (js ''key'') = js ''key''"
  by (simp add: trim_def trimEnd_def trimStart_def js_def isWhiteSpace_def)

lemma ex_status:
  "status (exItem n) = Pending" "status exDone = Success" "status exFailed = Error"
  "item_id exDone = js ''11-f''" "item_id exFailed = js ''13-f''"
  "item_file (exItem n) = exFile n" "item_file exFailed = exFile 13"
  by (simp_all add: exDone_def exFailed_def exItem_ids) (simp_all add: exItem_def exUpload_def createQueueItem_def)

lemma ex_eligible: "eligible (exItem n)" "\<not> eligible exDone" "eligible exFailed"
  by (simp_all add: eligible_def ex_status)

lemma ex_calls:
  "callSucceeds (exEnvs 0)" "\<not> callSucceeds (exEnvs 1)" "callSucceeds (exEnvs 2)"
  "\<not> callSucceeds (exEnvs (Suc 0))"
  by (simp_all add: callSucceeds_def exEnvs_def exEnv_def exResponse_def)

theorem handleProcessQueue_sequential_witness:
  "distinct (map item_id (queue (exPage [exDone, exItem 12, exFailed]))) \<and>
   trim (apiKey (exPage [exDone, exItem 12, exFailed])) \<noteq> [] \<and>
   filter eligible (queue (exPage [exDone, exItem 12, exFailed])) \<noteq> [] \<and>
   filter isFetch (snd (handleProcessQueue exEnvs (render (exPage [exDone, exItem 12, exFailed])))) =
     [Fetch (exFile 12) (js ''key''), Fetch (exFile 13) (js ''key'')] \<and>
   queue (fst (handleProcessQueue exEnvs (render (exPage [exDone, exItem 12, exFailed])))) =
     [exDone, settled (exEnvs 0) (exItem 12), settled (exEnvs 1) exFailed]"
proof -
  have q: "queue (exPage [exDone, exItem 12, exFailed]) = [exDone, exItem 12, exFailed]"
    and k: "apiKey (exPage [exDone, exItem 12, exFailed]) = js ''key''"
    by (simp_all add: exPage_def initialPage_def)
  have h1: "distinct (map item_id (queue (exPage [exDone, exItem 12, exFailed])))"
    unfolding q using ex_distinct by (simp add: ex_status exItem_ids)
  have h2: "trim (apiKey (exPage [exDone, exItem 12, exFailed])) \<noteq> []"
    unfolding k by (rule exKey_not_blank)
  have h3: "filter eligible (queue (exPage [exDone, exItem 12, exFailed])) \<noteq> []"
    unfolding q by (simp add: ex_eligible)
  note t = handleProcessQueue_sequential [OF h1 h2 h3, of exEnvs]
  have c1: "filter isFetch (snd (handleProcessQueue exEnvs (render (exPage [exDone, exItem 12, exFailed])))) =
     [Fetch (exFile 12) (js ''key''), Fetch (exFile 13) (js ''key'')]"
    unfolding t [THEN conjunct1] q k by (simp add: ex_eligible ex_status ex_trim_key)
  have c2: "queue (fst (handleProcessQueue exEnvs (render (exPage [exDone, exItem 12, exFailed])))) =
     [exDone, settled (exEnvs 0) (exItem 12), settled (exEnvs 1) exFailed]"
    unfolding t [THEN conjunct2, THEN conjunct1] q by (simp add: ex_eligible)
  show ?thesis
    by (intro conjI) (rule h1 h2 h3 c1 c2)+
qed

text \<open>
  C3. Under the same conditions, whatever the outcomes of the calls: the queue keeps its
  length, one request is sent for every item of the work set (the run does not stop at a
  failure), and no global error is set. The item at a place \<open>i\<close> of the queue ends as its
  own settled version, which depends on the item and on the outcome of its own call only
  (\<open>Success\<close> when that call succeeds, \<open>Error\<close> otherwise), or is unchanged when it was not
  in the work set; so two runs whose environments agree on the call of one item leave that
  item the same, however the other calls end.
\<close>

theorem handleProcessQueue_failure_isolation:
  assumes "distinct (map item_id (queue s))" and "trim (apiKey s) \<noteq> []"
    and "filter eligible (queue s) \<noteq> []"
  shows
    "length (queue (fst (handleProcessQueue env (render s)))) = length (queue s) \<and>
     length (filter isFetch (snd (handleProcessQueue env (render s)))) =
       length (filter eligible (queue s)) \<and>
     globalError (fst (handleProcessQueue env (render s))) = None \<and>
     (\<forall>i < length (queue s).
        queue (fst (handleProcessQueue env (render s))) ! i =
          (if eligible (queue s ! i) then settled (env (workIndex (queue s) i)) (queue s ! i)
           else queue s ! i)) \<and>
     (\<forall>e x. status (settled e x) = (if callSucceeds e then Success else Error) \<and>
            item_id (settled e x) = item_id x) \<and>
     (\<forall>env' i. i < length (queue s) \<and> env' (workIndex (queue s) i) = env (workIndex (queue s) i) \<longrightarrow>
        queue (fst (handleProcessQueue env' (render s))) ! i =
          queue (fst (handleProcessQueue env (render s))) ! i)"
proof -
  note gd = assms(2,3)
  have q: "queue (fst (handleProcessQueue env'' (render s))) = settleAll env'' 0 (queue s)" for env''
    by (rule handleProcessQueue_queue [OF assms])
  have 1: "length (queue (fst (handleProcessQueue env (render s)))) = length (queue s)"
    by (simp add: q settleAll_length)
  have 2: "length (filter isFetch (snd (handleProcessQueue env (render s)))) =
       length (filter eligible (queue s))"
    by (simp add: handleProcessQueue_fetches [OF gd])
  have 3: "globalError (fst (handleProcessQueue env (render s))) = None"
    using handleProcessQueue_controls [OF gd] by simp
  have 4: "\<forall>i < length (queue s).
        queue (fst (handleProcessQueue env (render s))) ! i =
          (if eligible (queue s ! i) then settled (env (workIndex (queue s) i)) (queue s ! i)
           else queue s ! i)"
    by (simp add: q settleAll_nth)
  have 5: "\<forall>e x. status (settled e x) = (if callSucceeds e then Success else Error) \<and>
            item_id (settled e x) = item_id x"
    by (simp add: settled_status settled_id)
  have 6: "\<forall>env' i. i < length (queue s) \<and> env' (workIndex (queue s) i) = env (workIndex (queue s) i) \<longrightarrow>
        queue (fst (handleProcessQueue env' (render s))) ! i =
          queue (fst (handleProcessQueue env (render s))) ! i"
    by (simp add: q settleAll_nth)
  show ?thesis
    by (intro conjI) (rule 1 2 3 4 5 6)+
qed

lemma ex_workIndex:
  "workIndex [exItem 11, exItem 12, exItem 13] 0 = 0"
  "workIndex [exItem 11, exItem 12, exItem 13] 1 = 1"
  "workIndex [exItem 11, exItem 12, exItem 13] 2 = 2"
  by (simp_all add: workIndex_def ex_eligible)

theorem handleProcessQueue_failure_isolation_witness:
  "distinct (map item_id (queue (exPage [exItem 11, exItem 12, exItem 13]))) \<and>
   trim (apiKey (exPage [exItem 11, exItem 12, exItem 13])) \<noteq> [] \<and>
   filter eligible (queue (exPage [exItem 11, exItem 12, exItem 13])) \<noteq> [] \<and>
   status (queue (fst (handleProcessQueue exEnvs (render (exPage [exItem 11, exItem 12, exItem 13])))) ! 0) = Success \<and>
   status (queue (fst (handleProcessQueue exEnvs (render (exPage [exItem 11, exItem 12, exItem 13])))) ! 1) = Error \<and>
   status (queue (fst (handleProcessQueue exEnvs (render (exPage [exItem 11, exItem 12, exItem 13])))) ! 2) = Success \<and>
   length (filter isFetch (snd (handleProcessQueue exEnvs (render (exPage [exItem 11, exItem 12, exItem 13]))))) = 3 \<and>
   globalError (fst (handleProcessQueue exEnvs (render (exPage [exItem 11, exItem 12, exItem 13])))) = None"
proof -
  have q: "queue (exPage [exItem 11, exItem 12, exItem 13]) = [exItem 11, exItem 12, exItem 13]"
    and k: "apiKey (exPage [exItem 11, exItem 12, exItem 13]) = js ''key''"
    by (simp_all add: exPage_def initialPage_def)
  have h1: "distinct (map item_id (queue (exPage [exItem 11, exItem 12, exItem 13])))"
    unfolding q using ex_distinct by (simp add: exItem_ids)
  have h2: "trim (apiKey (exPage [exItem 11, exItem 12, exItem 13])) \<noteq> []"
    unfolding k by (rule exKey_not_blank)
  have h3: "filter eligible (queue (exPage [exItem 11, exItem 12, exItem 13])) \<noteq> []"
    unfolding q by (simp add: ex_eligible)
  note t = handleProcessQueue_failure_isolation [OF h1 h2 h3, of exEnvs]
  note n = t [THEN conjunct2, THEN conjunct2, THEN conjunct2, THEN conjunct1, rule_format]
  have c0: "status (queue (fst (handleProcessQueue exEnvs (render (exPage [exItem 11, exItem 12, exItem 13])))) ! 0) = Success"
    using n [of 0] by (simp add: q ex_eligible ex_workIndex settled_status ex_calls)
  have c1: "status (queue (fst (handleProcessQueue exEnvs (render (exPage [exItem 11, exItem 12, exItem 13])))) ! 1) = Error"
    using n [of 1] ex_workIndex(2) ex_calls(2) by (simp add: q ex_eligible settled_status)
  have c2: "status (queue (fst (handleProcessQueue exEnvs (render (exPage [exItem 11, exItem 12, exItem 13])))) ! 2) = Success"
    using n [of 2] by (simp add: q ex_eligible ex_workIndex settled_status ex_calls)
  have c3: "length (filter isFetch (snd (handleProcessQueue exEnvs (render (exPage [exItem 11, exItem 12, exItem 13]))))) = 3"
    unfolding t [THEN conjunct2, THEN conjunct1] q by (simp add: ex_eligible)
  note c4 = t [THEN conjunct2, THEN conjunct2, THEN conjunct1]
  show ?thesis
    by (intro conjI) (rule h1 h2 h3 c0 c1 c2 c3 c4)+
qed

subsection \<open>Reachable states\<close>

text \<open>
  The invariant of an item: it holds a result exactly when it is \<open>Success\<close>, a \<open>Success\<close>
  item has no error, and an \<open>Error\<close> item has one.
\<close>

definition itemOk :: "QueueItem \<Rightarrow> bool" where
  "itemOk x =
     ((status x = Success \<longrightarrow> resultBlob x \<noteq> None \<and> resultUrl x \<noteq> None \<and> error x = None) \<and>
      (status x \<noteq> Success \<longrightarrow> resultBlob x = None \<and> resultUrl x = None) \<and>
      (status x = Error \<longrightarrow> error x \<noteq> None))"

definition pageOk :: "page \<Rightarrow> bool" where
  "pageOk s =
     (queueRef s = queue s \<and> distinct (map item_id (queue s)) \<and> (\<forall>x \<in> set (queue s). itemOk x))"

text \<open>
  The states the page can be in: the initial one (whatever credential the local storage
  holds), and the state after an upload of files whose new ids are fresh, the removal of an
  item, a batch run under any environment, a change of the credential, the selection of an
  item, or the clearing of the queue; each followed by the next render.
\<close>

inductive reachable :: "page \<Rightarrow> bool" where
  start: "reachable (initialPage k)"
| enqueue: "reachable s \<Longrightarrow> distinct (map item_id (queue s @ map createQueueItem files)) \<Longrightarrow>
     reachable (render (handleFileChange files s))"
| remove: "reachable s \<Longrightarrow> reachable (render (fst (handleRemoveItem i s)))"
| runBatch: "reachable s \<Longrightarrow> reachable (render (fst (handleProcessQueue env s)))"
| setApiKey: "reachable s \<Longrightarrow> reachable (render (s\<lparr>apiKey := k\<rparr>))"
| select: "reachable s \<Longrightarrow> i \<in> item_id ` set (queue s) \<Longrightarrow>
     reachable (render (s\<lparr>activeId := Some i\<rparr>))"
| clear: "reachable s \<Longrightarrow> reachable (render (fst (handleClearQueue s)))"

lemma itemOk_created: "itemOk (createQueueItem fe)"
  by (simp add: itemOk_def createQueueItem_def)

lemma itemOk_settled: "itemOk x \<Longrightarrow> eligible x \<Longrightarrow> itemOk (settled e x)"
  using settled_success [of e x] settled_failure [of e x]
  by (cases "callSucceeds e") (auto simp: itemOk_def eligible_def settled_status)

lemma settleAll_ids: "map item_id (settleAll env k q) = map item_id q"
  by (induction q arbitrary: k) (simp_all add: settled_id)

lemma settleAll_ok: "\<forall>x \<in> set q. itemOk x \<Longrightarrow> \<forall>x \<in> set (settleAll env k q). itemOk x"
  by (induction q arbitrary: k) (simp_all add: itemOk_settled)

lemma pageOk_render: "pageOk s \<Longrightarrow> render s = s"
  by (simp add: pageOk_def render_def)

lemma pageOk_handleProcessQueue:
  assumes "pageOk s"
  shows "pageOk (render (fst (handleProcessQueue env s)))"
proof (cases "trim (apiKey s) \<noteq> [] \<and> filter eligible (queue s) \<noteq> []")
  case True
  then have gd: "trim (apiKey s) \<noteq> []" "filter eligible (queue s) \<noteq> []" by simp_all
  from assms have d: "distinct (map item_id (queue s))" by (simp add: pageOk_def)
  have "queue (fst (handleProcessQueue env (render s))) = settleAll env 0 (queue s)"
    by (rule handleProcessQueue_queue [OF d gd])
  then have "queue (fst (handleProcessQueue env s)) = settleAll env 0 (queue s)"
    by (simp add: pageOk_render [OF assms])
  moreover from assms have "\<forall>x \<in> set (settleAll env 0 (queue s)). itemOk x"
    by (intro settleAll_ok) (simp add: pageOk_def)
  ultimately show ?thesis
    using assms by (simp add: pageOk_def render_def settleAll_ids)
next
  case False
  with assms have "queue (fst (handleProcessQueue env s)) = queue s"
    by (auto simp: handleProcessQueue_def pageOk_def Let_def)
  with assms show ?thesis
    by (simp add: pageOk_def render_def)
qed

lemma pageOk_handleFileChange:
  assumes "pageOk s" and "distinct (map item_id (queue s @ map createQueueItem files))"
  shows "pageOk (render (handleFileChange files s))"
  using assms
  by (auto simp: pageOk_def render_def handleFileChange_def Let_def itemOk_created)

lemma pageOk_handleRemoveItem: "pageOk s \<Longrightarrow> pageOk (render (fst (handleRemoveItem i s)))"
  by (simp add: pageOk_def render_def handleRemoveItem_def Let_def distinct_map_filter)

lemma reachable_pageOk: "reachable s \<Longrightarrow> pageOk s"
proof (induction rule: reachable.induct)
  case (start k)
  show ?case by (simp add: pageOk_def initialPage_def)
next
  case (enqueue s files)
  then show ?case by (simp add: pageOk_handleFileChange)
next
  case (remove s i)
  then show ?case by (simp add: pageOk_handleRemoveItem)
next
  case (runBatch s env)
  then show ?case by (simp add: pageOk_handleProcessQueue)
next
  case (setApiKey s k)
  then show ?case by (simp add: pageOk_def render_def)
next
  case (select s i)
  then show ?case by (simp add: pageOk_def render_def)
next
  case (clear s)
  then show ?case by (simp add: pageOk_def render_def handleClearQueue_def)
qed

text \<open>
  C4. In every reachable state, every item of the queue that is \<open>Success\<close> has a result
  (blob and URL) and no error message, and every item that is \<open>Error\<close> has an error message
  and no result.
\<close>

theorem reachable_result_xor_error:
  assumes "reachable s"
  shows "\<forall>x \<in> set (queue s).
           (status x = Success \<longrightarrow>
              resultBlob x \<noteq> None \<and> resultUrl x \<noteq> None \<and> error x = None) \<and>
           (status x = Error \<longrightarrow>
              error x \<noteq> None \<and> resultBlob x = None \<and> resultUrl x = None)"
  using reachable_pageOk [OF assms] by (auto simp: pageOk_def itemOk_def)

definition exUploaded :: page where
  "exUploaded = handleFileChange [exUpload 11, exUpload 12] (initialPage (js ''key''))"

definition exProcessed :: page where
  "exProcessed = render (fst (handleProcessQueue exEnvs (render exUploaded)))"

lemma exUploaded_queue: "queue exUploaded = [exItem 11, exItem 12]"
  by (simp add: exUploaded_def handleFileChange_def Let_def initialPage_def exItem_def)

lemma exUploaded_key: "apiKey exUploaded = js ''key''"
  by (simp add: exUploaded_def handleFileChange_def Let_def initialPage_def)

lemma exProcessed_queue:
  "queue exProcessed = [settled (exEnvs 0) (exItem 11), settled (exEnvs 1) (exItem 12)]"
proof -
  have d: "distinct (map item_id (queue exUploaded))"
    using ex_distinct by (simp add: exUploaded_queue exItem_ids)
  have k: "trim (apiKey exUploaded) \<noteq> []"
    by (simp add: exUploaded_key exKey_not_blank)
  have w: "filter eligible (queue exUploaded) \<noteq> []"
    by (simp add: exUploaded_queue ex_eligible)
  show ?thesis
    by (simp add: exProcessed_def render_def [of "fst (handleProcessQueue exEnvs (render exUploaded))"] handleProcessQueue_queue [OF d k w]
        exUploaded_queue ex_eligible)
qed

theorem reachable_result_xor_error_witness:
  "reachable exProcessed \<and>
   status (queue exProcessed ! 0) = Success \<and>
   resultBlob (queue exProcessed ! 0) \<noteq> None \<and> resultUrl (queue exProcessed ! 0) \<noteq> None \<and>
   error (queue exProcessed ! 0) = None \<and>
   status (queue exProcessed ! 1) = Error \<and>
   error (queue exProcessed ! 1) \<noteq> None \<and>
   resultBlob (queue exProcessed ! 1) = None \<and> resultUrl (queue exProcessed ! 1) = None"
proof -
  have d: "distinct (map item_id (queue (initialPage (js ''key'')) @
             map createQueueItem [exUpload 11, exUpload 12]))"
    using ex_distinct exItem_ids by (simp add: initialPage_def exItem_def)
  have "reachable (render exUploaded)"
    unfolding exUploaded_def by (rule reachable.enqueue [OF reachable.start d])
  then have r: "reachable exProcessed"
    unfolding exProcessed_def by (rule reachable.runBatch)
  note t = reachable_result_xor_error [OF r]
  have s0: "status (queue exProcessed ! 0) = Success"
    by (simp add: exProcessed_queue settled_status ex_calls)
  have s1: "status (queue exProcessed ! 1) = Error"
    by (simp add: exProcessed_queue settled_status ex_calls)
  have m0: "queue exProcessed ! 0 \<in> set (queue exProcessed)"
    and m1: "queue exProcessed ! 1 \<in> set (queue exProcessed)"
    by (simp_all add: exProcessed_queue)
  from t [rule_format, OF m0] s0
  have a: "resultBlob (queue exProcessed ! 0) \<noteq> None \<and> resultUrl (queue exProcessed ! 0) \<noteq> None \<and>
           error (queue exProcessed ! 0) = None"
    by simp
  from t [rule_format, OF m1] s1
  have b: "error (queue exProcessed ! 1) \<noteq> None \<and>
           resultBlob (queue exProcessed ! 1) = None \<and> resultUrl (queue exProcessed ! 1) = None"
    by simp
  show ?thesis
    using r s0 s1 a b by (intro conjI) simp_all
qed

section \<open>The compression pipeline (compress page)\<close>

subsection \<open>The canvas\<close>

text \<open>
  The page draws on an HTML canvas; what the browser does there is not code of the
  repository. It is modelled as far as the claims need it: a surface of pixels with four
  8-bit channels, and the compositing rule \<open>source-over\<close>, the default of a 2D context,
  under which \<open>fillRect\<close> and \<open>drawImage\<close> paint.
\<close>

record pixel =
  red :: "8 word"
  green :: "8 word"
  blue :: "8 word"
  alpha :: "8 word"

record HTMLImage =
  naturalWidth :: nat
  naturalHeight :: nat
  imagePixel :: "nat \<Rightarrow> nat \<Rightarrow> pixel"

record canvas =
  width :: nat
  height :: nat
  surface :: "nat \<Rightarrow> nat \<Rightarrow> pixel"

definition transparentBlack :: pixel where
  "transparentBlack = \<lparr>red = 0, green = 0, blue = 0, alpha = 0\<rparr>"

text \<open>The fill style \<open>#ffffff\<close>: opaque white.\<close>

definition white :: pixel where
  "white = \<lparr>red = 255, green = 255, blue = 255, alpha = 255\<rparr>"

text \<open>
  \<open>document.createElement("canvas")\<close> with \<open>width\<close> and \<open>height\<close> assigned: a surface of
  that size, transparent black all over.
\<close>

definition newCanvas :: "nat \<Rightarrow> nat \<Rightarrow> canvas" where
  "newCanvas w h = \<lparr>width = w, height = h, surface = (\<lambda>x y. transparentBlack)\<rparr>"

text \<open>
  Source over destination, on channels that are not premultiplied: the resulting alpha is
  \<open>sa + da (1 - sa)\<close>, each colour the average of both weighted by \<open>sa\<close> and
  \<open>da (1 - sa)\<close>, with 255 for 1 and rounding down.
\<close>

definition overChannel :: "nat \<Rightarrow> nat \<Rightarrow> 8 word \<Rightarrow> 8 word \<Rightarrow> 8 word" where
  "overChannel sa da cs cd =
     (let ao = sa + da * (255 - sa) div 255
      in if ao = 0 then 0
         else of_nat ((unat cs * sa * 255 + unat cd * da * (255 - sa)) div (ao * 255)))"

definition over :: "pixel \<Rightarrow> pixel \<Rightarrow> pixel" where
  "over s d =
     (let sa = unat (alpha s); da = unat (alpha d)
      in \<lparr> red = overChannel sa da (red s) (red d),
           green = overChannel sa da (green s) (green d),
           blue = overChannel sa da (blue s) (blue d),
           alpha = of_nat (sa + da * (255 - sa) div 255) \<rparr>)"

definition fillRect :: "pixel \<Rightarrow> nat \<Rightarrow> nat \<Rightarrow> nat \<Rightarrow> nat \<Rightarrow> canvas \<Rightarrow> canvas" where
  "fillRect style x0 y0 w h c =
     c\<lparr>surface := (\<lambda>x y.
          if x0 \<le> x \<and> x < x0 + w \<and> y0 \<le> y \<and> y < y0 + h \<and> x < width c \<and> y < height c
          then over style (surface c x y) else surface c x y)\<rparr>"

definition drawImage :: "HTMLImage \<Rightarrow> nat \<Rightarrow> nat \<Rightarrow> canvas \<Rightarrow> canvas" where
  "drawImage img dx dy c =
     c\<lparr>surface := (\<lambda>x y.
          if dx \<le> x \<and> x < dx + naturalWidth img \<and> dy \<le> y \<and> y < dy + naturalHeight img \<and>
             x < width c \<and> y < height c
          then over (imagePixel img (x - dx) (y - dy)) (surface c x y) else surface c x y)\<rparr>"

subsection \<open>compressImage\<close>

text \<open>"Cannot read the image, please retry."\<close>
definition MSG_READ :: jsstr where
  "MSG_READ = [0x65E0, 0x6CD5, 0x8BFB, 0x53D6, 0x56FE, 0x7247, 0xFF0C, 0x8BF7, 0x91CD, 0x8BD5,
     0x3002]"

text \<open>"Loading the image failed, please use another file."\<close>
definition MSG_LOAD :: jsstr where
  "MSG_LOAD = [0x56FE, 0x7247, 0x52A0, 0x8F7D, 0x5931, 0x8D25, 0xFF0C, 0x8BF7, 0x4F7F, 0x7528,
     0x5176, 0x4ED6, 0x6587, 0x4EF6, 0x3002]"

text \<open>"The browser does not support canvas operations yet."\<close>
definition MSG_CANVAS :: jsstr where
  "MSG_CANVAS = [0x6D4F, 0x89C8, 0x5668, 0x6682, 0x4E0D, 0x652F, 0x6301, 0x20, 0x43, 0x61, 0x6E,
     0x76, 0x61, 0x73, 0x20, 0x64CD, 0x4F5C, 0x3002]"

text \<open>"Compression failed, please retry later."\<close>
definition MSG_COMPRESS :: jsstr where
  "MSG_COMPRESS = [0x538B, 0x7F29, 0x5931, 0x8D25, 0xFF0C, 0x8BF7, 0x7A0D, 0x540E, 0x91CD, 0x8BD5,
     0x3002]"

record CompressionResult =
  blob :: Blob
  url :: jsstr
  mimeType :: jsstr

text \<open>
  What the browser decides during one \<open>compressImage\<close>: whether the file reader delivers a
  data URL, whether the image element decodes it, whether a 2D context exists, what
  \<open>toBlob\<close> hands to its callback for a surface, a type and a quality (\<open>None\<close> for \<open>null\<close>),
  and the object URL of the blob.
\<close>

record compress_env =
  readAsDataURL :: "File \<Rightarrow> jsstr option"
  loadImage :: "jsstr \<Rightarrow> HTMLImage option"
  getContext2d :: bool
  toBlob :: "canvas \<Rightarrow> jsstr \<Rightarrow> real \<Rightarrow> Blob option"
  createObjectURL :: "Blob \<Rightarrow> jsstr"

text \<open>\<open>["image/png", "image/webp"].includes(file.type)\<close> and the target type.\<close>

definition supportsAlpha :: "File \<Rightarrow> bool" where
  "supportsAlpha f = (fileType f \<in> set [js ''image/png'', js ''image/webp''])"

definition targetType :: "File \<Rightarrow> jsstr" where
  "targetType f = (if supportsAlpha f then js ''image/webp'' else js ''image/jpeg'')"

text \<open>
  The surface that is encoded: the canvas sized to the image, filled with white when the
  target is JPEG, and the image drawn at the origin.
\<close>

definition paintSurface :: "File \<Rightarrow> HTMLImage \<Rightarrow> canvas" where
  "paintSurface f img =
     (let c0 = newCanvas (naturalWidth img) (naturalHeight img);
          c1 = (if targetType f = js ''image/jpeg''
                then fillRect white 0 0 (width c0) (height c0) c0 else c0)
      in drawImage img 0 0 c1)"

definition compressImage :: "compress_env \<Rightarrow> File \<Rightarrow> real \<Rightarrow> thrown + CompressionResult" where
  "compressImage env f quality =
     (case readAsDataURL env f of
        None \<Rightarrow> Inl (ThrownError MSG_READ)
      | Some dataUrl \<Rightarrow>
          (case loadImage env dataUrl of
             None \<Rightarrow> Inl (ThrownError MSG_LOAD)
           | Some img \<Rightarrow>
               if \<not> getContext2d env then Inl (ThrownError MSG_CANVAS)
               else
                 (case toBlob env (paintSurface f img) (targetType f) quality of
                    None \<Rightarrow> Inl (ThrownError MSG_COMPRESS)
                  | Some b \<Rightarrow>
                      Inr \<lparr>blob = b, url = createObjectURL env b, mimeType = targetType f\<rparr>)))"

lemma unat8_le: "unat (w :: 8 word) \<le> 255"
  using unsigned_less [of w, where ?'a = nat] by simp

lemma over_opaque: "alpha d = 255 \<Longrightarrow> alpha (over s d) = 255"
  using unat8_le [of "alpha s"] by (simp add: over_def Let_def)

lemma overChannel_transparent: "overChannel 0 255 cs cd = cd"
  by (simp add: overChannel_def Let_def)

lemma over_transparent: "alpha s = 0 \<Longrightarrow> alpha d = 255 \<Longrightarrow> over s d = d"
  by (cases d) (simp add: over_def Let_def overChannel_transparent)

lemma over_fresh_alpha: "alpha (over s transparentBlack) = alpha s"
  by (simp add: over_def Let_def transparentBlack_def)

lemma over_white: "alpha (over white d) = 255"
  by (simp add: over_def Let_def white_def)

lemma paintSurface_size:
  "width (paintSurface f img) = naturalWidth img \<and> height (paintSurface f img) = naturalHeight img"
  by (simp add: paintSurface_def drawImage_def fillRect_def newCanvas_def Let_def)

lemma paintSurface_jpeg:
  assumes "fileType f \<noteq> js ''image/png''" and "fileType f \<noteq> js ''image/webp''"
  shows "paintSurface f img =
           drawImage img 0 0
             (fillRect white 0 0 (naturalWidth img) (naturalHeight img)
                (newCanvas (naturalWidth img) (naturalHeight img)))"
  using assms by (simp add: paintSurface_def targetType_def supportsAlpha_def Let_def newCanvas_def)

lemma webp_not_jpeg: "js ''image/webp'' \<noteq> js ''image/jpeg''"
  by (simp add: js_def)

lemma paintSurface_alpha:
  assumes "fileType f = js ''image/png'' \<or> fileType f = js ''image/webp''"
  shows "paintSurface f img =
           drawImage img 0 0 (newCanvas (naturalWidth img) (naturalHeight img))"
  using assms webp_not_jpeg
  by (auto simp: paintSurface_def targetType_def supportsAlpha_def Let_def)

lemma jpeg_pixel:
  assumes "fileType f \<noteq> js ''image/png''" and "fileType f \<noteq> js ''image/webp''"
    and "x < naturalWidth img" and "y < naturalHeight img"
  shows "surface (paintSurface f img) x y = over (imagePixel img x y) (over white transparentBlack)"
  using assms(3,4)
  by (simp add: paintSurface_jpeg [OF assms(1,2)] drawImage_def fillRect_def newCanvas_def)

lemma alpha_pixel:
  assumes "fileType f = js ''image/png'' \<or> fileType f = js ''image/webp''"
    and "x < naturalWidth img" and "y < naturalHeight img"
  shows "surface (paintSurface f img) x y = over (imagePixel img x y) transparentBlack"
  using assms(2,3)
  by (simp add: paintSurface_alpha [OF assms(1)] drawImage_def newCanvas_def)

lemma over_white_fresh: "over white transparentBlack = white"
  by (simp add: over_def overChannel_def Let_def white_def transparentBlack_def)

lemma compressImage_Inr:
  assumes "compressImage env f quality = Inr r"
  shows "\<exists>dataUrl img. readAsDataURL env f = Some dataUrl \<and> loadImage env dataUrl = Some img \<and>
           toBlob env (paintSurface f img) (targetType f) quality = Some (blob r) \<and>
           mimeType r = targetType f"
  using assms
  by (auto simp: compressImage_def split: option.splits if_splits)

lemma targetType_webp:
  "(targetType f = js ''image/webp'') =
     (fileType f = js ''image/png'' \<or> fileType f = js ''image/webp'')"
  using webp_not_jpeg by (auto simp: targetType_def supportsAlpha_def)

text \<open>
  C6. Whenever \<open>compressImage\<close> returns a result, its type is WebP exactly when the type of
  the file is PNG or WebP, and JPEG otherwise, and its blob is what the encoder made of the
  painted surface for that type and the given quality. When the type of the file is neither
  PNG nor WebP, the surface is the fresh canvas filled with opaque white and then the image
  drawn over it: every pixel is fully opaque, and white wherever the image is fully
  transparent. When it is PNG or WebP, the image is drawn on the fresh transparent canvas,
  and every pixel keeps the alpha of the image.
\<close>

theorem compressImage_format_policy:
  "(compressImage env f quality = Inr r \<longrightarrow>
      (mimeType r = js ''image/webp'') =
        (fileType f = js ''image/png'' \<or> fileType f = js ''image/webp'') \<and>
      (mimeType r = js ''image/webp'' \<or> mimeType r = js ''image/jpeg'') \<and>
      (\<exists>dataUrl img. readAsDataURL env f = Some dataUrl \<and> loadImage env dataUrl = Some img \<and>
         toBlob env (paintSurface f img) (mimeType r) quality = Some (blob r))) \<and>
   (fileType f \<noteq> js ''image/png'' \<and> fileType f \<noteq> js ''image/webp'' \<longrightarrow>
      paintSurface f img =
        drawImage img 0 0
          (fillRect white 0 0 (naturalWidth img) (naturalHeight img)
             (newCanvas (naturalWidth img) (naturalHeight img))) \<and>
      (\<forall>x y. x < naturalWidth img \<and> y < naturalHeight img \<longrightarrow>
         alpha (surface (paintSurface f img) x y) = 255 \<and>
         (alpha (imagePixel img x y) = 0 \<longrightarrow> surface (paintSurface f img) x y = white))) \<and>
   (fileType f = js ''image/png'' \<or> fileType f = js ''image/webp'' \<longrightarrow>
      paintSurface f img = drawImage img 0 0 (newCanvas (naturalWidth img) (naturalHeight img)) \<and>
      (\<forall>x y. x < naturalWidth img \<and> y < naturalHeight img \<longrightarrow>
         alpha (surface (paintSurface f img) x y) = alpha (imagePixel img x y)))"
proof (intro conjI impI)
  assume c: "compressImage env f quality = Inr r"
  from compressImage_Inr [OF c] obtain dataUrl img' where
    e: "readAsDataURL env f = Some dataUrl" "loadImage env dataUrl = Some img'"
       "toBlob env (paintSurface f img') (targetType f) quality = Some (blob r)"
    and m: "mimeType r = targetType f"
    by blast
  show "(mimeType r = js ''image/webp'') =
          (fileType f = js ''image/png'' \<or> fileType f = js ''image/webp'')"
    unfolding m by (rule targetType_webp)
  show "mimeType r = js ''image/webp'' \<or> mimeType r = js ''image/jpeg''"
    unfolding m by (simp add: targetType_def)
  show "\<exists>dataUrl img. readAsDataURL env f = Some dataUrl \<and> loadImage env dataUrl = Some img \<and>
         toBlob env (paintSurface f img) (mimeType r) quality = Some (blob r)"
    unfolding m using e by blast
next
  assume j: "fileType f \<noteq> js ''image/png'' \<and> fileType f \<noteq> js ''image/webp''"
  then have j1: "fileType f \<noteq> js ''image/png''" and j2: "fileType f \<noteq> js ''image/webp''"
    by simp_all
  show "paintSurface f img =
        drawImage img 0 0
          (fillRect white 0 0 (naturalWidth img) (naturalHeight img)
             (newCanvas (naturalWidth img) (naturalHeight img)))"
    by (rule paintSurface_jpeg [OF j1 j2])
  show "\<forall>x y. x < naturalWidth img \<and> y < naturalHeight img \<longrightarrow>
         alpha (surface (paintSurface f img) x y) = 255 \<and>
         (alpha (imagePixel img x y) = 0 \<longrightarrow> surface (paintSurface f img) x y = white)"
  proof (intro allI impI conjI)
    fix x y
    assume "x < naturalWidth img \<and> y < naturalHeight img"
    then have p: "surface (paintSurface f img) x y = over (imagePixel img x y) white"
      using jpeg_pixel [OF j1 j2, of x img y] by (simp add: over_white_fresh)
    have w: "alpha white = 255" by (simp add: white_def)
    show "alpha (surface (paintSurface f img) x y) = 255"
      unfolding p by (rule over_opaque [OF w])
    assume "alpha (imagePixel img x y) = 0"
    then show "surface (paintSurface f img) x y = white"
      unfolding p by (rule over_transparent [OF _ w])
  qed
next
  assume a: "fileType f = js ''image/png'' \<or> fileType f = js ''image/webp''"
  show "paintSurface f img = drawImage img 0 0 (newCanvas (naturalWidth img) (naturalHeight img))"
    by (rule paintSurface_alpha [OF a])
  show "\<forall>x y. x < naturalWidth img \<and> y < naturalHeight img \<longrightarrow>
         alpha (surface (paintSurface f img) x y) = alpha (imagePixel img x y)"
    using alpha_pixel [OF a] by (simp add: over_fresh_alpha)
qed

text \<open>
  C7. Whenever \<open>compressImage\<close> returns a result, for whatever quality, the surface handed
  to the encoder has the natural width and height of the decoded image. The surface does not
  depend on the quality, which only the encoder receives, and each of its pixels comes from
  the pixel of the image at the same coordinates (painted over the background), so nothing
  is resampled.
\<close>

theorem compressImage_keeps_dimensions:
  "(compressImage env f quality = Inr r \<longrightarrow>
      (\<exists>dataUrl img. readAsDataURL env f = Some dataUrl \<and> loadImage env dataUrl = Some img \<and>
         toBlob env (paintSurface f img) (targetType f) quality = Some (blob r) \<and>
         width (paintSurface f img) = naturalWidth img \<and>
         height (paintSurface f img) = naturalHeight img)) \<and>
   width (paintSurface f img) = naturalWidth img \<and>
   height (paintSurface f img) = naturalHeight img \<and>
   (\<forall>x y. x < naturalWidth img \<and> y < naturalHeight img \<longrightarrow>
      surface (paintSurface f img) x y =
        over (imagePixel img x y)
          (if fileType f = js ''image/png'' \<or> fileType f = js ''image/webp''
           then transparentBlack else white))"
proof (intro conjI impI allI)
  assume c: "compressImage env f quality = Inr r"
  from compressImage_Inr [OF c] obtain dataUrl img' where
    e: "readAsDataURL env f = Some dataUrl" "loadImage env dataUrl = Some img'"
       "toBlob env (paintSurface f img') (targetType f) quality = Some (blob r)"
    by blast
  with paintSurface_size [of f img']
  show "\<exists>dataUrl img. readAsDataURL env f = Some dataUrl \<and> loadImage env dataUrl = Some img \<and>
         toBlob env (paintSurface f img) (targetType f) quality = Some (blob r) \<and>
         width (paintSurface f img) = naturalWidth img \<and>
         height (paintSurface f img) = naturalHeight img"
    by blast
next
  show "width (paintSurface f img) = naturalWidth img"
    and "height (paintSurface f img) = naturalHeight img"
    using paintSurface_size [of f img] by simp_all
next
  fix x y
  assume b: "x < naturalWidth img \<and> y < naturalHeight img"
  show "surface (paintSurface f img) x y =
        over (imagePixel img x y)
          (if fileType f = js ''image/png'' \<or> fileType f = js ''image/webp''
           then transparentBlack else white)"
  proof (cases "fileType f = js ''image/png'' \<or> fileType f = js ''image/webp''")
    case True
    with alpha_pixel [OF True, of x img y] b show ?thesis by simp
  next
    case False
    then have "fileType f \<noteq> js ''image/png''" "fileType f \<noteq> js ''image/webp''" by simp_all
    from jpeg_pixel [OF this, of x img y] b False show ?thesis
      by (simp add: over_white_fresh)
  qed
qed

definition exImage :: HTMLImage where
  "exImage =
     \<lparr> naturalWidth = 2, naturalHeight = 1,
       imagePixel = (\<lambda>x y. if x = 0 then \<lparr>red = 200, green = 10, blue = 10, alpha = 0\<rparr>
                            else \<lparr>red = 1, green = 2, blue = 3, alpha = 255\<rparr>) \<rparr>"

definition exBrowser :: compress_env where
  "exBrowser =
     \<lparr> readAsDataURL = (\<lambda>f. Some (js ''data:'')), loadImage = (\<lambda>u. Some exImage),
       getContext2d = True, toBlob = (\<lambda>c t q. Some [1]),
       createObjectURL = (\<lambda>b. js ''blob:c'') \<rparr>"

definition exJpeg :: File where
  "exJpeg = (exFile 2)\<lparr>fileType := js ''image/jpeg''\<rparr>"

lemma ex_fileTypes:
  "fileType (exFile n) = js ''image/png''" "fileType exJpeg = js ''image/jpeg''"
  "js ''image/jpeg'' \<noteq> js ''image/png''" "js ''image/jpeg'' \<noteq> js ''image/webp''"
  by (simp_all add: exFile_def exJpeg_def) (simp_all add: js_def)

lemma ex_compress_png:
  "compressImage exBrowser (exFile 1) (7 / 10) =
     Inr \<lparr>blob = [1], url = js ''blob:c'', mimeType = js ''image/webp''\<rparr>"
  by (simp add: compressImage_def exBrowser_def targetType_def supportsAlpha_def ex_fileTypes)

lemma ex_compress_jpeg:
  "compressImage exBrowser exJpeg (7 / 10) =
     Inr \<lparr>blob = [1], url = js ''blob:c'', mimeType = js ''image/jpeg''\<rparr>"
  by (simp add: compressImage_def exBrowser_def targetType_def supportsAlpha_def ex_fileTypes)

theorem compressImage_format_policy_witness:
  "compressImage exBrowser (exFile 1) (7 / 10) =
     Inr \<lparr>blob = [1], url = js ''blob:c'', mimeType = js ''image/webp''\<rparr> \<and>
   (fileType (exFile 1) = js ''image/png'' \<or> fileType (exFile 1) = js ''image/webp'') \<and>
   alpha (surface (paintSurface (exFile 1) exImage) 0 0) = 0 \<and>
   compressImage exBrowser exJpeg (7 / 10) =
     Inr \<lparr>blob = [1], url = js ''blob:c'', mimeType = js ''image/jpeg''\<rparr> \<and>
   fileType exJpeg \<noteq> js ''image/png'' \<and> fileType exJpeg \<noteq> js ''image/webp'' \<and>
   alpha (surface (paintSurface exJpeg exImage) 0 0) = 255 \<and>
   surface (paintSurface exJpeg exImage) 0 0 = white \<and>
   alpha (surface (paintSurface exJpeg exImage) 1 0) = 255"
proof -
  note t = compressImage_format_policy
  have b: "(0::nat) < naturalWidth exImage \<and> (0::nat) < naturalHeight exImage"
    "(1::nat) < naturalWidth exImage \<and> (0::nat) < naturalHeight exImage"
    by (simp_all add: exImage_def)
  have z: "alpha (imagePixel exImage 0 0) = 0"
    by (simp add: exImage_def)
  have a1: "fileType (exFile 1) = js ''image/png'' \<or> fileType (exFile 1) = js ''image/webp''"
    using t [of exBrowser "exFile 1" "7 / 10"
             "\<lparr>blob = [1], url = js ''blob:c'', mimeType = js ''image/webp''\<rparr>",
             THEN conjunct1, rule_format, OF ex_compress_png, THEN conjunct1]
    by simp
  have a2: "alpha (surface (paintSurface (exFile 1) exImage) 0 0) = 0"
    using t [of _ "exFile 1" _ _ exImage, THEN conjunct2, THEN conjunct2, rule_format, OF a1,
             THEN conjunct2, rule_format, OF b(1)] z
    by simp
  have j: "fileType exJpeg \<noteq> js ''image/png'' \<and> fileType exJpeg \<noteq> js ''image/webp''"
    by (simp add: ex_fileTypes)
  note tj = t [of _ exJpeg _ _ exImage, THEN conjunct2, THEN conjunct1, rule_format, OF j,
               THEN conjunct2, rule_format]
  have j1: "alpha (surface (paintSurface exJpeg exImage) 0 0) = 255"
    using tj [OF b(1)] by simp
  have j2: "surface (paintSurface exJpeg exImage) 0 0 = white"
    using tj [OF b(1)] z by simp
  have j3: "alpha (surface (paintSurface exJpeg exImage) 1 0) = 255"
    using tj [OF b(2)] by simp
  show ?thesis
    using ex_compress_png a1 a2 ex_compress_jpeg j j1 j2 j3 by (intro conjI) simp_all
qed

theorem compressImage_keeps_dimensions_witness:
  "compressImage exBrowser exJpeg (7 / 10) =
     Inr \<lparr>blob = [1], url = js ''blob:c'', mimeType = js ''image/jpeg''\<rparr> \<and>
   (\<exists>dataUrl img. readAsDataURL exBrowser exJpeg = Some dataUrl \<and>
      loadImage exBrowser dataUrl = Some img \<and>
      toBlob exBrowser (paintSurface exJpeg img) (targetType exJpeg) (7 / 10) = Some [1] \<and>
      width (paintSurface exJpeg img) = naturalWidth img \<and>
      height (paintSurface exJpeg img) = naturalHeight img) \<and>
   width (paintSurface exJpeg exImage) = 2 \<and> height (paintSurface exJpeg exImage) = 1 \<and>
   (1::nat) < naturalWidth exImage \<and> (0::nat) < naturalHeight exImage \<and>
   surface (paintSurface exJpeg exImage) 1 0 = \<lparr>red = 1, green = 2, blue = 3, alpha = 255\<rparr>"
proof -
  note t = compressImage_keeps_dimensions
  have b: "(1::nat) < naturalWidth exImage \<and> (0::nat) < naturalHeight exImage"
    by (simp add: exImage_def)
  have c1: "\<exists>dataUrl img. readAsDataURL exBrowser exJpeg = Some dataUrl \<and>
      loadImage exBrowser dataUrl = Some img \<and>
      toBlob exBrowser (paintSurface exJpeg img) (targetType exJpeg) (7 / 10) = Some [1] \<and>
      width (paintSurface exJpeg img) = naturalWidth img \<and>
      height (paintSurface exJpeg img) = naturalHeight img"
    using t [of exBrowser exJpeg "7 / 10"
             "\<lparr>blob = [1], url = js ''blob:c'', mimeType = js ''image/jpeg''\<rparr>",
             THEN conjunct1, rule_format, OF ex_compress_jpeg]
    by simp
  have c2: "width (paintSurface exJpeg exImage) = 2" "height (paintSurface exJpeg exImage) = 1"
    using t [of exBrowser exJpeg _ _ exImage, THEN conjunct2]
    by (simp_all add: exImage_def)
  have c3: "surface (paintSurface exJpeg exImage) 1 0 = \<lparr>red = 1, green = 2, blue = 3, alpha = 255\<rparr>"
    using t [of exBrowser exJpeg _ _ exImage, THEN conjunct2, THEN conjunct2, THEN conjunct2,
             rule_format, OF b]
    by (simp add: ex_fileTypes exImage_def over_def overChannel_def white_def Let_def)
  show ?thesis
    using ex_compress_jpeg c1 c2 b c3 by (intro conjI) simp_all
qed

section \<open>JSON values and the JavaScript operations on them\<close>

text \<open>
  A value as \<open>JSON.parse\<close> delivers it. An object is the list of its own members, each key
  once. A number is held as the text that JavaScript prints for it
  (\<open>Number.prototype.toString\<close>, so \<open>5\<close>, \<open>-1.5\<close>, \<open>1e+21\<close>): printing a number and
  testing it for zero is all the sources do with one. A value that may be \<open>undefined\<close> is
  a \<open>json option\<close>, with \<open>None\<close> for \<open>undefined\<close>.
\<close>

datatype json =
  JNull | JBool bool | JNum jsstr | JStr jsstr | JArr "json list" | JObj "(jsstr \<times> json) list"

datatype js_error = TypeError

text \<open>
  \<open>v.key\<close> for a value that is neither \<open>null\<close> nor \<open>undefined\<close>, and for a key that no
  prototype defines (all keys read by the sources are of that kind): the member of an
  object, \<open>undefined\<close> on anything else.
\<close>

definition getProp :: "json \<Rightarrow> jsstr \<Rightarrow> json option" where
  "getProp v key = (case v of JObj members \<Rightarrow> map_of members key | _ \<Rightarrow> None)"

text \<open>\<open>v?.key\<close>: \<open>undefined\<close> when \<open>v\<close> is \<open>null\<close> or \<open>undefined\<close>.\<close>

definition optProp :: "json option \<Rightarrow> jsstr \<Rightarrow> json option" where
  "optProp v key = (case v of None \<Rightarrow> None | Some JNull \<Rightarrow> None | Some w \<Rightarrow> getProp w key)"

text \<open>Truthiness. The numbers that are falsy print as \<open>0\<close> (both zeros) and \<open>NaN\<close>.\<close>

definition truthy :: "json option \<Rightarrow> bool" where
  "truthy v =
     (case v of
        None \<Rightarrow> False
      | Some JNull \<Rightarrow> False
      | Some (JBool b) \<Rightarrow> b
      | Some (JNum t) \<Rightarrow> t \<noteq> js ''0'' \<and> t \<noteq> js ''NaN''
      | Some (JStr s) \<Rightarrow> s \<noteq> []
      | Some (JArr xs) \<Rightarrow> True
      | Some (JObj ms) \<Rightarrow> True)"

text \<open>\<open>a || b\<close> and \<open>a ?? b\<close>.\<close>

definition orElse :: "json option \<Rightarrow> json option \<Rightarrow> json option" where
  "orElse a b = (if truthy a then a else b)"

definition nullish :: "json option \<Rightarrow> bool" where
  "nullish v = (v = None \<or> v = Some JNull)"

fun joinWith :: "jsstr \<Rightarrow> jsstr list \<Rightarrow> jsstr" where
  "joinWith sep [] = []"
| "joinWith sep [s] = s"
| "joinWith sep (s # t # ts) = s @ sep @ joinWith sep (t # ts)"

text \<open>The results of a list of conversions, up to the first one that throws.\<close>

fun collect :: "(js_error + 'a) list \<Rightarrow> js_error + 'a list" where
  "collect [] = Inr []"
| "collect (r # rs) =
     (case r of
        Inl e \<Rightarrow> Inl e
      | Inr x \<Rightarrow> (case collect rs of Inl e \<Rightarrow> Inl e | Inr xs \<Rightarrow> Inr (x # xs)))"

text \<open>
  \<open>String(v)\<close>, which is also what a template literal and \<open>RegExp.prototype.test\<close> apply to
  their argument. An object prints as \<open>[object Object]\<close> through the inherited \<open>toString\<close>;
  an own member \<open>toString\<close> hides that method and is not callable, and then no primitive
  value is found: a \<open>TypeError\<close>. An array joins the strings of its elements with commas,
  \<open>null\<close> counting as the empty string there, and throws when the conversion of an element
  does.
\<close>

fun toStringJs :: "json \<Rightarrow> js_error + jsstr" where
  "toStringJs JNull = Inr (js ''null'')"
| "toStringJs (JBool b) = Inr (if b then js ''true'' else js ''false'')"
| "toStringJs (JNum t) = Inr t"
| "toStringJs (JStr s) = Inr s"
| "toStringJs (JArr xs) =
     (case collect (map (\<lambda>x. if x = JNull then Inr [] else toStringJs x) xs) of
        Inl e \<Rightarrow> Inl e
      | Inr parts \<Rightarrow> Inr (joinWith (js '','') parts))"
| "toStringJs (JObj ms) =
     (if js ''toString'' \<in> fst ` set ms then Inl TypeError else Inr (js ''[object Object]''))"

text \<open>The values whose conversion to a string does not throw.\<close>

fun convertible :: "json \<Rightarrow> bool" where
  "convertible (JArr xs) = list_all convertible xs"
| "convertible (JObj ms) = (js ''toString'' \<notin> fst ` set ms)"
| "convertible v = True"

lemma collect_Inr:
  "(\<exists>ys. collect rs = Inr ys) = list_all (\<lambda>r. \<exists>y. r = Inr y) rs"
  by (induction rs) (auto split: sum.splits)

lemma collect_map_Inr:
  "(\<exists>ys. collect (map f xs) = Inr ys) = list_all (\<lambda>x. \<exists>y. f x = Inr y) xs"
  by (induction xs) (auto split: sum.splits)

lemma collect_Inl: "collect rs = Inl e \<Longrightarrow> e = TypeError"
  by (cases e) simp

lemma toStringJs_convertible: "(\<exists>s. toStringJs v = Inr s) = convertible v"
proof (induction v rule: toStringJs.induct)
  case (5 xs)
  have "(\<exists>s. toStringJs (JArr xs) = Inr s) =
          (\<exists>ys. collect (map (\<lambda>x. if x = JNull then Inr [] else toStringJs x) xs) = Inr ys)"
    by (auto split: sum.splits)
  also have "\<dots> = list_all (\<lambda>x. \<exists>y. (if x = JNull then Inr [] else toStringJs x) = Inr y) xs"
    by (rule collect_map_Inr)
  also have "\<dots> = list_all convertible xs"
    unfolding list_all_iff using 5 by auto
  finally show ?case by simp
qed simp_all

lemma toStringJs_cases: "toStringJs v = Inl TypeError \<or> (\<exists>s. toStringJs v = Inr s)"
  by (cases "toStringJs v") (auto intro: js_error.exhaust)

section \<open>Content extraction (identify page)\<close>

record NormalizedContentBlock =
  block_id :: jsstr
  block_text :: jsstr

text \<open>\<open>`choice-${index}-text-${innerIndex}`\<close>.\<close>

definition blockId :: "nat \<Rightarrow> nat \<Rightarrow> jsstr" where
  "blockId index innerIndex =
     js ''choice-'' @ showNat index @ js ''-text-'' @ showNat innerIndex"

text \<open>What one push adds: a block for a trimmed text that is not empty.\<close>

definition pushTrimmed :: "jsstr \<Rightarrow> jsstr \<Rightarrow> NormalizedContentBlock list" where
  "pushTrimmed i trimmed = (if trimmed \<noteq> [] then [\<lparr>block_id = i, block_text = trimmed\<rparr>] else [])"

text \<open>\<open>"key" in v\<close> for an object or array \<open>v\<close>.\<close>

definition hasKey :: "json \<Rightarrow> jsstr \<Rightarrow> bool" where
  "hasKey v key = (case v of JObj members \<Rightarrow> key \<in> fst ` set members | _ \<Rightarrow> False)"

text \<open>
  The callback of the inner \<open>forEach\<close>, for the element \<open>item\<close> at \<open>innerIndex\<close>: the blocks
  it pushes, or the \<open>TypeError\<close> of calling \<open>trim\<close> on a \<open>text\<close> that is neither nullish nor
  a string.
\<close>

definition itemBlocks :: "nat \<Rightarrow> nat \<Rightarrow> json \<Rightarrow> js_error + NormalizedContentBlock list" where
  "itemBlocks index innerIndex item =
     (case item of
        JStr s \<Rightarrow> Inr (pushTrimmed (blockId index innerIndex) (trim s))
      | _ \<Rightarrow>
          if truthy (Some item) \<and> (case item of JObj ms \<Rightarrow> True | JArr xs \<Rightarrow> True | _ \<Rightarrow> False) \<and>
             hasKey item (js ''type'') \<and> getProp item (js ''type'') = Some (JStr (js ''text''))
          then
            (case getProp item (js ''text'') of
               None \<Rightarrow> Inr []
             | Some JNull \<Rightarrow> Inr []
             | Some (JStr s) \<Rightarrow> Inr (pushTrimmed (blockId index innerIndex) (trim s))
             | Some other \<Rightarrow> Inl TypeError)
          else Inr [])"

text \<open>\<open>content.forEach((item, innerIndex) => ...)\<close>, from \<open>innerIndex\<close> on.\<close>

fun contentBlocks :: "nat \<Rightarrow> nat \<Rightarrow> json list \<Rightarrow> js_error + NormalizedContentBlock list" where
  "contentBlocks index innerIndex [] = Inr []"
| "contentBlocks index innerIndex (item # rest) =
     (case itemBlocks index innerIndex item of
        Inl e \<Rightarrow> Inl e
      | Inr pushed \<Rightarrow>
          (case contentBlocks index (Suc innerIndex) rest of
             Inl e \<Rightarrow> Inl e
           | Inr later \<Rightarrow> Inr (pushed @ later)))"

text \<open>The callback of the outer \<open>forEach\<close>, for the choice at \<open>index\<close>.\<close>

definition choiceContent :: "json \<Rightarrow> json option" where
  "choiceContent choice = optProp (optProp (Some choice) (js ''message'')) (js ''content'')"

definition choiceBlocks :: "nat \<Rightarrow> json \<Rightarrow> js_error + NormalizedContentBlock list" where
  "choiceBlocks index choice =
     (case choiceContent choice of
        Some (JStr s) \<Rightarrow> Inr (pushTrimmed (blockId index 0) (trim s))
      | Some (JArr items) \<Rightarrow> contentBlocks index 0 items
      | _ \<Rightarrow> Inr [])"

text \<open>\<open>choices.forEach((choice, index) => ...)\<close>, from \<open>index\<close> on.\<close>

fun choicesBlocks :: "nat \<Rightarrow> json list \<Rightarrow> js_error + NormalizedContentBlock list" where
  "choicesBlocks index [] = Inr []"
| "choicesBlocks index (choice # rest) =
     (case choiceBlocks index choice of
        Inl e \<Rightarrow> Inl e
      | Inr pushed \<Rightarrow>
          (case choicesBlocks (Suc index) rest of
             Inl e \<Rightarrow> Inl e
           | Inr later \<Rightarrow> Inr (pushed @ later)))"

text \<open>\<open>Array.isArray(result.choices) ? result.choices : []\<close>.\<close>

definition choicesOf :: "json \<Rightarrow> json list" where
  "choicesOf result = (case getProp result (js ''choices'') of Some (JArr cs) \<Rightarrow> cs | _ \<Rightarrow> [])"

text \<open>
  The fallback after the loop. \<open>"output_text" in result\<close> is a \<open>TypeError\<close> when \<open>result\<close>
  is a primitive value, and \<open>String(result.output_text ?? "")\<close> throws when the conversion
  does.
\<close>

definition fallbackBlocks :: "json \<Rightarrow> js_error + NormalizedContentBlock list" where
  "fallbackBlocks result =
     (case result of
        JObj ms \<Rightarrow>
          if hasKey result (js ''output_text'') then
            (let v = getProp result (js ''output_text'')
             in case toStringJs (if nullish v then JStr [] else the v) of
                  Inl e \<Rightarrow> Inl e
                | Inr converted \<Rightarrow> Inr (pushTrimmed (js ''fallback-output-text'') (trim converted)))
          else Inr []
      | JArr xs \<Rightarrow> Inr []
      | _ \<Rightarrow> Inl TypeError)"

text \<open>\<open>extractMessageContent\<close>; \<open>null\<close> is \<open>JNull\<close>.\<close>

definition extractMessageContent :: "json \<Rightarrow> js_error + NormalizedContentBlock list" where
  "extractMessageContent result =
     (if \<not> truthy (Some result) then Inr []
      else
        (case choicesBlocks 0 (choicesOf result) of
           Inl e \<Rightarrow> Inl e
         | Inr blocks \<Rightarrow> if blocks \<noteq> [] then Inr blocks else fallbackBlocks result))"

subsection \<open>The extraction policy\<close>

text \<open>
  The policy in the words of the specification, as a function from a response to the texts
  of its blocks. The text an array element carries: the element itself when it is a string,
  its \<open>text\<close> when it is an object of type \<open>"text"\<close> whose \<open>text\<close> is a string.
\<close>

definition elementText :: "json \<Rightarrow> jsstr option" where
  "elementText item =
     (case item of
        JStr s \<Rightarrow> Some s
      | JObj ms \<Rightarrow>
          if map_of ms (js ''type'') = Some (JStr (js ''text''))
          then (case map_of ms (js ''text'') of Some (JStr s) \<Rightarrow> Some s | _ \<Rightarrow> None)
          else None
      | _ \<Rightarrow> None)"

text \<open>A text is used trimmed, and skipped if that is empty.\<close>

definition usedText :: "jsstr \<Rightarrow> jsstr list" where
  "usedText s = (if trim s = [] then [] else [trim s])"

definition contentTexts :: "json option \<Rightarrow> jsstr list" where
  "contentTexts content =
     (case content of
        Some (JStr s) \<Rightarrow> usedText s
      | Some (JArr items) \<Rightarrow>
          concat (map (\<lambda>item. case elementText item of None \<Rightarrow> [] | Some s \<Rightarrow> usedText s) items)
      | _ \<Rightarrow> [])"


definition choicesTexts :: "json \<Rightarrow> jsstr list" where
  "choicesTexts result =
     concat (map (\<lambda>choice. contentTexts (choiceContent choice)) (choicesOf result))"


text \<open>
  The responses on which the policy is stated. Every array element of type \<open>"text"\<close> has a
  \<open>text\<close> that is a string, \<open>null\<close> or absent.
\<close>

definition textTyped :: "json \<Rightarrow> bool" where
  "textTyped item =
     (case item of
        JObj ms \<Rightarrow>
          (if map_of ms (js ''type'') = Some (JStr (js ''text''))
           then (case map_of ms (js ''text'') of
                   None \<Rightarrow> True | Some JNull \<Rightarrow> True | Some (JStr s) \<Rightarrow> True | Some other \<Rightarrow> False)
           else True)
      | _ \<Rightarrow> True)"

definition contentTyped :: "json \<Rightarrow> bool" where
  "contentTyped choice =
     (case choiceContent choice of Some (JArr items) \<Rightarrow> list_all textTyped items | _ \<Rightarrow> True)"

text \<open>
  And, for the case that the fallback is reached: the response is an array, or an object
  whose \<open>output_text\<close> is absent, \<open>null\<close> or a value that converts to a string.
\<close>

definition fallbackConvertible :: "json \<Rightarrow> bool" where
  "fallbackConvertible result =
     (case result of
        JObj ms \<Rightarrow>
          (case map_of ms (js ''output_text'') of
             None \<Rightarrow> True | Some JNull \<Rightarrow> True | Some v \<Rightarrow> convertible v)
      | JArr xs \<Rightarrow> True
      | _ \<Rightarrow> False)"

text \<open>
  Together: the response is falsy (\<open>null\<close>), or all its elements of type \<open>"text"\<close> are typed
  and either the choices give a text or the fallback can be read.
\<close>

definition extractable :: "json \<Rightarrow> bool" where
  "extractable result =
     (\<not> truthy (Some result) \<or>
      (list_all contentTyped (choicesOf result) \<and>
       (choicesTexts result \<noteq> [] \<or> fallbackConvertible result)))"

lemma map_of_hasKey: "(key \<in> fst ` set ms) = (map_of ms key \<noteq> None)"
  by (simp add: map_of_eq_None_iff)

lemma pushTrimmed_texts: "map block_text (pushTrimmed i (trim s)) = usedText s"
  by (simp add: pushTrimmed_def usedText_def)

lemma itemBlocks_typed:
  assumes "textTyped item"
  shows "\<exists>bs. itemBlocks index innerIndex item = Inr bs \<and>
           map block_text bs = (case elementText item of None \<Rightarrow> [] | Some s \<Rightarrow> usedText s)"
proof (cases item)
  case (JObj ms)
  show ?thesis
  proof (cases "map_of ms (js ''type'') = Some (JStr (js ''text''))")
    case True
    with assms JObj show ?thesis
      by (auto simp: itemBlocks_def elementText_def textTyped_def truthy_def hasKey_def getProp_def
          map_of_hasKey pushTrimmed_texts split: option.splits json.splits)
  next
    case False
    with JObj show ?thesis
      by (auto simp: itemBlocks_def elementText_def truthy_def hasKey_def getProp_def)
  qed
qed (auto simp: itemBlocks_def elementText_def truthy_def hasKey_def getProp_def pushTrimmed_texts)

lemma contentBlocks_typed:
  "list_all textTyped items \<Longrightarrow>
     \<exists>bs. contentBlocks index innerIndex items = Inr bs \<and>
       map block_text bs =
         concat (map (\<lambda>item. case elementText item of None \<Rightarrow> [] | Some s \<Rightarrow> usedText s) items)"
proof (induction items arbitrary: innerIndex)
  case Nil
  show ?case by simp
next
  case (Cons item rest)
  from Cons.prems have t: "textTyped item" and r: "list_all textTyped rest" by simp_all
  from itemBlocks_typed [OF t, of index innerIndex] obtain bs where
    b: "itemBlocks index innerIndex item = Inr bs"
       "map block_text bs = (case elementText item of None \<Rightarrow> [] | Some s \<Rightarrow> usedText s)"
    by blast
  from Cons.IH [OF r, of "Suc innerIndex"] obtain later where
    m: "contentBlocks index (Suc innerIndex) rest = Inr later"
       "map block_text later =
          concat (map (\<lambda>item. case elementText item of None \<Rightarrow> [] | Some s \<Rightarrow> usedText s) rest)"
    by blast
  show ?case by (simp add: b m)
qed

lemma choiceBlocks_typed:
  assumes "contentTyped choice"
  shows "\<exists>bs. choiceBlocks index choice = Inr bs \<and>
           map block_text bs = contentTexts (choiceContent choice)"
proof (cases "choiceContent choice")
  case None
  then show ?thesis by (simp add: choiceBlocks_def contentTexts_def)
next
  case (Some content)
  show ?thesis
  proof (cases content)
    case (JArr items)
    with assms Some have "list_all textTyped items" by (simp add: contentTyped_def)
    from contentBlocks_typed [OF this, of index 0] Some JArr show ?thesis
      by (simp add: choiceBlocks_def contentTexts_def)
  qed (simp_all add: Some choiceBlocks_def contentTexts_def pushTrimmed_texts)
qed

lemma choicesBlocks_typed:
  "list_all contentTyped choices \<Longrightarrow>
     \<exists>bs. choicesBlocks index choices = Inr bs \<and>
       map block_text bs = concat (map (\<lambda>choice. contentTexts (choiceContent choice)) choices)"
proof (induction choices arbitrary: index)
  case Nil
  show ?case by simp
next
  case (Cons choice rest)
  from Cons.prems have t: "contentTyped choice" and r: "list_all contentTyped rest" by simp_all
  from choiceBlocks_typed [OF t, of index] obtain bs where
    b: "choiceBlocks index choice = Inr bs"
       "map block_text bs = contentTexts (choiceContent choice)"
    by blast
  from Cons.IH [OF r, of "Suc index"] obtain later where
    m: "choicesBlocks (Suc index) rest = Inr later"
       "map block_text later = concat (map (\<lambda>choice. contentTexts (choiceContent choice)) rest)"
    by blast
  show ?case by (simp add: b m)
qed


lemma block_texts_Nil: "(map block_text bs = []) = (bs = [])"
  by simp




text \<open>Outside these responses the extraction throws.\<close>

lemma itemBlocks_untyped: "\<not> textTyped item \<Longrightarrow> itemBlocks index innerIndex item = Inl TypeError"
  by (cases item)
     (auto simp: textTyped_def itemBlocks_def truthy_def hasKey_def getProp_def map_of_hasKey
           split: option.splits json.splits if_splits)

lemma contentBlocks_untyped:
  "\<not> list_all textTyped items \<Longrightarrow> contentBlocks index innerIndex items = Inl TypeError"
proof (induction items arbitrary: innerIndex)
  case Nil
  then show ?case by simp
next
  case (Cons item rest)
  show ?case
  proof (cases "textTyped item")
    case False
    then show ?thesis by (simp add: itemBlocks_untyped)
  next
    case True
    with Cons.prems have "\<not> list_all textTyped rest" by simp
    from Cons.IH [OF this, of "Suc innerIndex"] itemBlocks_typed [OF True, of index innerIndex]
    show ?thesis by auto
  qed
qed

lemma choiceBlocks_untyped: "\<not> contentTyped choice \<Longrightarrow> choiceBlocks index choice = Inl TypeError"
  by (auto simp: contentTyped_def choiceBlocks_def contentBlocks_untyped
      split: option.splits json.splits)

lemma choicesBlocks_untyped:
  "\<not> list_all contentTyped choices \<Longrightarrow> choicesBlocks index choices = Inl TypeError"
proof (induction choices arbitrary: index)
  case Nil
  then show ?case by simp
next
  case (Cons choice rest)
  show ?case
  proof (cases "contentTyped choice")
    case False
    then show ?thesis by (simp add: choiceBlocks_untyped)
  next
    case True
    with Cons.prems have "\<not> list_all contentTyped rest" by simp
    from Cons.IH [OF this, of "Suc index"] choiceBlocks_typed [OF True, of index]
    show ?thesis by auto
  qed
qed

lemma fallbackBlocks_unconvertible:
  assumes "truthy (Some result)" and "\<not> fallbackConvertible result"
  shows "fallbackBlocks result = Inl TypeError"
proof (cases result)
  case (JObj ms)
  with assms(2) obtain v where v: "map_of ms (js ''output_text'') = Some v" "v \<noteq> JNull"
    "\<not> convertible v"
    by (auto simp: fallbackConvertible_def split: option.splits json.splits)
  from v(3) toStringJs_convertible [of v] toStringJs_cases [of v]
  have "toStringJs v = Inl TypeError" by auto
  with JObj v show ?thesis
    by (simp add: fallbackBlocks_def hasKey_def getProp_def map_of_hasKey nullish_def Let_def)
qed (use assms in \<open>simp_all add: fallbackConvertible_def fallbackBlocks_def\<close>)

lemma extractMessageContent_throws:
  assumes "\<not> extractable result"
  shows "extractMessageContent result = Inl TypeError"
proof -
  from assms have t: "truthy (Some result)"
    and d: "\<not> list_all contentTyped (choicesOf result) \<or>
            (choicesTexts result = [] \<and> \<not> fallbackConvertible result)"
    by (auto simp: extractable_def)
  show ?thesis
  proof (cases "list_all contentTyped (choicesOf result)")
    case False
    with t show ?thesis
      by (simp add: extractMessageContent_def choicesBlocks_untyped)
  next
    case True
    with d have n: "choicesTexts result = []" and f: "\<not> fallbackConvertible result" by simp_all
    from choicesBlocks_typed [OF True, of 0] obtain bs where
      b: "choicesBlocks 0 (choicesOf result) = Inr bs" "map block_text bs = choicesTexts result"
      unfolding choicesTexts_def by blast
    from b(2) n have "bs = []" by simp
    with b(1) t fallbackBlocks_unconvertible [OF t f] show ?thesis
      by (simp add: extractMessageContent_def)
  qed
qed




















section \<open>The image-generation route\<close>



text \<open>"Generation failed, please try again later."\<close>
definition MSG_GENERATE_FAILED :: jsstr where
  "MSG_GENERATE_FAILED = [0x751F, 0x6210, 0x5931, 0x8D25, 0xFF0C, 0x8BF7, 0x7A0D, 0x540E, 0x518D,
     0x8BD5, 0x3002]"


text \<open>The response format, \<open>"url" | "b64_json"\<close>.\<close>

datatype ResponseFormat = FormatUrl | FormatB64Json

text \<open>\<open>a || b\<close> where \<open>b\<close> is a value.\<close>

definition orValue :: "json option \<Rightarrow> json \<Rightarrow> json" where
  "orValue a b = (if truthy a then the a else b)"

text \<open>\<open>a ?? null\<close>.\<close>

definition orNull :: "json option \<Rightarrow> json" where
  "orNull a = (if nullish a then JNull else the a)"

subsection \<open>Normalising the images\<close>

record BuiltImage =
  built_url :: json
  built_mime :: json

text \<open>
  \<open>buildImageUrl\<close>. Reading \<open>item.url\<close> of an element that is \<open>null\<close> is a \<open>TypeError\<close>,
  and so is a value in the template literal that cannot be converted to a string.
\<close>

definition buildImageUrl :: "json \<Rightarrow> jsstr \<Rightarrow> js_error + BuiltImage option" where
  "buildImageUrl item fallbackMime =
     (if item = JNull then Inl TypeError
      else if truthy (getProp item (js ''url'')) then
        Inr (Some \<lparr> built_url = the (getProp item (js ''url'')),
                    built_mime =
                      orValue (getProp item (js ''content_type''))
                        (orValue (getProp item (js ''mime_type'')) (JStr fallbackMime)) \<rparr>)
      else if truthy (getProp item (js ''b64_json'')) then
        (let mime = orValue (getProp item (js ''content_type''))
                      (orValue (getProp item (js ''mime_type'')) (JStr fallbackMime))
         in case toStringJs mime of
              Inl e \<Rightarrow> Inl e
            | Inr mimeText \<Rightarrow>
                (case toStringJs (the (getProp item (js ''b64_json''))) of
                   Inl e \<Rightarrow> Inl e
                 | Inr payloadText \<Rightarrow>
                     Inr (Some \<lparr> built_url =
                                   JStr (js ''data:'' @ mimeText @ js '';base64,'' @ payloadText),
                                 built_mime = mime \<rparr>)))
      else Inr None)"

record NormalizedImage =
  n_id :: jsstr
  n_url :: json
  n_mimeType :: json
  n_size :: json
  n_prompt :: json
  n_revisedPrompt :: json
  n_seed :: json
  n_created :: json

text \<open>\<open>`${item.index ?? index}`\<close>.\<close>

definition indexText :: "json \<Rightarrow> nat \<Rightarrow> js_error + jsstr" where
  "indexText item index =
     (if nullish (getProp item (js ''index'')) then Inr (showNat index)
      else toStringJs (the (getProp item (js ''index''))))"

text \<open>The callback of \<open>items.forEach\<close> in \<open>normalizeImages\<close>: what it pushes.\<close>

definition normalizeItem :: "json \<Rightarrow> nat \<Rightarrow> js_error + NormalizedImage list" where
  "normalizeItem item index =
     (case buildImageUrl item (js ''image/png'') of
        Inl e \<Rightarrow> Inl e
      | Inr None \<Rightarrow> Inr []
      | Inr (Some built) \<Rightarrow>
          (case indexText item index of
             Inl e \<Rightarrow> Inl e
           | Inr suffix \<Rightarrow>
               Inr [\<lparr> n_id = js ''image-'' @ suffix,
                      n_url = built_url built,
                      n_mimeType = built_mime built,
                      n_size = orNull (getProp item (js ''size'')),
                      n_prompt = orNull (getProp item (js ''prompt'')),
                      n_revisedPrompt = orNull (getProp item (js ''revised_prompt'')),
                      n_seed = orNull (getProp item (js ''seed'')),
                      n_created = orNull (getProp item (js ''created'')) \<rparr>]))"

fun normalizeItems :: "nat \<Rightarrow> json list \<Rightarrow> js_error + NormalizedImage list" where
  "normalizeItems index [] = Inr []"
| "normalizeItems index (item # rest) =
     (case normalizeItem item index of
        Inl e \<Rightarrow> Inl e
      | Inr pushed \<Rightarrow>
          (case normalizeItems (Suc index) rest of
             Inl e \<Rightarrow> Inl e
           | Inr later \<Rightarrow> Inr (pushed @ later)))"

definition normalizeImages :: "json \<Rightarrow> js_error + NormalizedImage list" where
  "normalizeImages data =
     (case optProp (Some data) (js ''data'') of
        Some (JArr items) \<Rightarrow> normalizeItems 0 items
      | _ \<Rightarrow> Inr [])"

subsection \<open>Calling the provider\<close>


record VolcengineCallResult =
  responseStatus :: nat
  rawText :: jsstr
  parsedBody :: json
  format :: ResponseFormat

text \<open>\<open>response.ok\<close>: the status is in the range 200 to 299.\<close>

definition responseOk :: "VolcengineCallResult \<Rightarrow> bool" where
  "responseOk r = (200 \<le> responseStatus r \<and> responseStatus r \<le> 299)"


text \<open>
  \<open>parsedBody?.error?.message || parsedBody?.message\<close>, the message both
  \<open>shouldRetryWithBase64\<close> and the error response read.
\<close>

definition providerMessage :: "json \<Rightarrow> json option" where
  "providerMessage p =
     orElse (optProp (optProp (Some p) (js ''error'')) (js ''message''))
            (optProp (Some p) (js ''message''))"




subsection \<open>POST\<close>

text \<open>The payload of a request; its keys carry the prefix \<open>pl_\<close> here.\<close>

record GeneratePayload =
  pl_model :: jsstr
  pl_prompt :: jsstr
  pl_size :: jsstr
  pl_stream :: bool
  pl_watermark :: bool
  pl_sequential_image_generation :: jsstr
  pl_negative_prompt :: "jsstr option"

text \<open>One request to the provider: the bearer key, the payload and \<open>response_format\<close>.\<close>

datatype provider_call = ProviderCall jsstr GeneratePayload ResponseFormat

definition callFormat :: "provider_call \<Rightarrow> ResponseFormat" where
  "callFormat c = (case c of ProviderCall key payload fmt \<Rightarrow> fmt)"

text \<open>
  The body of the route's answer: \<open>{ error }\<close> or \<open>{ error, details }\<close>; the answer of the
  \<open>catch\<close> block, whose details are the message of what was thrown; or
  \<open>{ data: { images, raw, responseFormat } }\<close>.
\<close>

datatype RoutePayload =
    ErrorPayload json "json option"
  | ServiceErrorPayload
  | DataPayload "NormalizedImage list" json ResponseFormat

record RouteResponse =
  http_status :: nat
  payload :: RoutePayload

definition serviceError :: RouteResponse where
  "serviceError = \<lparr>http_status = 500, payload = ServiceErrorPayload\<rparr>"










text \<open>
  \<open>NextResponse.json(body, { status })\<close> builds a \<open>Response\<close>, whose constructor throws for
  a status outside 200 to 599 and for a body together with a null-body status.
\<close>

definition responseInitThrows :: "nat \<Rightarrow> bool" where
  "responseInitThrows st = (st < 200 \<or> 599 < st \<or> st \<in> set [101, 103, 204, 205, 304])"

text \<open>
  The answer for the final result of the calls. What is thrown while it is built ends in
  the \<open>catch\<close> block.
\<close>

definition respond :: "VolcengineCallResult \<Rightarrow> RouteResponse" where
  "respond finalResult =
     (if \<not> responseOk finalResult then
        (if responseInitThrows (responseStatus finalResult) then serviceError
         else
           \<lparr> http_status = responseStatus finalResult,
             payload =
               ErrorPayload
                 (orValue (providerMessage (parsedBody finalResult)) (JStr MSG_GENERATE_FAILED))
                 (Some (parsedBody finalResult)) \<rparr>)
      else
        (case normalizeImages (parsedBody finalResult) of
           Inl e \<Rightarrow> serviceError
         | Inr images \<Rightarrow>
             \<lparr> http_status = 200,
               payload = DataPayload images (parsedBody finalResult) (format finalResult) \<rparr>))"



subsection \<open>The retry policy\<close>















lemma respond_cannot_answer:
  "\<not> responseOk r \<Longrightarrow> responseInitThrows (responseStatus r) \<Longrightarrow> respond r = serviceError"
  by (simp add: respond_def)












































end
